theory Spec2Isabelle
  imports Complex_Main "HOL-Library.Log_Nat"
begin

section \<open>JavaScript numbers\<close>

text \<open>
  Every number of \<open>src/App.tsx\<close> is a JavaScript \<open>number\<close>, an IEEE 754 double: the
  packet size comes out of \<open>parseInt\<close>, which gives \<open>NaN\<close> for an emptied field and a
  rounded value for a long string of digits, and all sizes are computed from it with \<open>+\<close>,
  \<open>-\<close>, \<open>*\<close>, \<open>/\<close> and \<open>Math.ceil\<close>. A \<open>number\<close> is here \<open>NaN\<close>, one of the two
  infinities, or a finite double given by its real value. The two zeros of the format are one
  value: the program adds, subtracts and compares its numbers, multiplies and divides them by
  the literals 4, 8 and 16 only, and so cannot tell the zeros apart.
\<close>

datatype number = NaN | PInf | NInf | Fin real

text \<open>
  The binade of a positive real \<open>q\<close> is the exponent \<open>e\<close> with \<open>2 powi e \<le> q\<close> and \<open>q < 2 powi (e + 1)\<close>
  (lemma \<open>binade_bounds\<close>), computed from the bit length of an integer.
\<close>

definition binade :: "real \<Rightarrow> int" where
  "binade q = (if 1 \<le> q then bitlen \<lfloor>q\<rfloor> - 1 else - bitlen (\<lceil>1 / q\<rceil> - 1))"

definition roundHalfEven :: "real \<Rightarrow> int" where
  "roundHalfEven x =
     (let f = \<lfloor>x\<rfloor>; d = x - of_int f
      in if d < 1 / 2 then f else if 1 / 2 < d then f + 1 else if even f then f else f + 1)"

text \<open>
  Rounding of an exact result to the nearest double, ties to even: 53 significant bits, the
  least exponent \<open>-1022\<close> (below it the spacing stays \<open>2 powi (- 1074)\<close>), and an infinity when the
  rounded magnitude reaches \<open>2 ^ 1024\<close>.
\<close>

definition roundDouble :: "real \<Rightarrow> number" where
  "roundDouble q =
     (if q = 0 then Fin 0
      else
        (let e = max (binade \<bar>q\<bar>) (- 1022);
             u = 2 powi (e - 52);
             r = of_int (roundHalfEven (q / u)) * u
         in if 2 ^ 1024 \<le> \<bar>r\<bar> then (if 0 < q then PInf else NInf) else Fin r))"

fun jsNeg :: "number \<Rightarrow> number" where
  "jsNeg (Fin q) = Fin (- q)"
| "jsNeg NaN = NaN"
| "jsNeg PInf = NInf"
| "jsNeg NInf = PInf"

text \<open>The operator \<open>+\<close>.\<close>

fun jsAdd :: "number \<Rightarrow> number \<Rightarrow> number" where
  "jsAdd (Fin a) (Fin b) = roundDouble (a + b)"
| "jsAdd NaN y = NaN"
| "jsAdd x NaN = NaN"
| "jsAdd PInf NInf = NaN"
| "jsAdd NInf PInf = NaN"
| "jsAdd PInf y = PInf"
| "jsAdd x PInf = PInf"
| "jsAdd NInf y = NInf"
| "jsAdd x NInf = NInf"

text \<open>The operator \<open>-\<close>: the sum with the negated second operand.\<close>

definition jsSub :: "number \<Rightarrow> number \<Rightarrow> number" where
  "jsSub x y = jsAdd x (jsNeg y)"

text \<open>The operator \<open>*\<close>; an infinity times zero is \<open>NaN\<close>.\<close>

fun jsMul :: "number \<Rightarrow> number \<Rightarrow> number" where
  "jsMul (Fin a) (Fin b) = roundDouble (a * b)"
| "jsMul NaN y = NaN"
| "jsMul x NaN = NaN"
| "jsMul (Fin a) y = (if a = 0 then NaN else if 0 < a then y else jsNeg y)"
| "jsMul x (Fin b) = (if b = 0 then NaN else if 0 < b then x else jsNeg x)"
| "jsMul PInf y = y"
| "jsMul NInf y = jsNeg y"

text \<open>The operator \<open>/\<close>; a zero divisor counts as the positive zero.\<close>

fun jsDiv :: "number \<Rightarrow> number \<Rightarrow> number" where
  "jsDiv (Fin a) (Fin b) =
     (if b = 0 then (if a = 0 then NaN else if 0 < a then PInf else NInf)
      else roundDouble (a / b))"
| "jsDiv NaN y = NaN"
| "jsDiv x NaN = NaN"
| "jsDiv (Fin a) y = Fin 0"
| "jsDiv x (Fin b) = (if 0 \<le> b then x else jsNeg x)"
| "jsDiv x y = NaN"

text \<open>\<open>Math.ceil\<close>.\<close>

fun jsCeil :: "number \<Rightarrow> number" where
  "jsCeil (Fin q) = Fin (of_int \<lceil>q\<rceil>)"
| "jsCeil x = x"

text \<open>The comparisons \<open><\<close>, \<open>>\<close> and \<open>>=\<close>: all are false when an operand is \<open>NaN\<close>.\<close>

fun jsLt :: "number \<Rightarrow> number \<Rightarrow> bool" where
  "jsLt (Fin a) (Fin b) = (a < b)"
| "jsLt NaN y = False"
| "jsLt x NaN = False"
| "jsLt x NInf = False"
| "jsLt NInf y = True"
| "jsLt PInf y = False"
| "jsLt x PInf = True"

definition jsGt :: "number \<Rightarrow> number \<Rightarrow> bool" where
  "jsGt x y = jsLt y x"

definition jsGe :: "number \<Rightarrow> number \<Rightarrow> bool" where
  "jsGe x y \<longleftrightarrow> x \<noteq> NaN \<and> y \<noteq> NaN \<and> \<not> jsLt x y"

section \<open>Data model of \<open>src/App.tsx\<close>\<close>

text \<open>
  One field of a packet (interface \<open>PacketDetail\<close>): its name, its size in bytes and the
  optional group it is merged with in the chart.
\<close>

record PacketDetail =
  "text" :: string
  bytes :: number
  group :: "string option"

datatype EspEncryption =
  Encr_None | ESP_DES_3DES | ESP_AES_128_192_256 | ESP_GCM_128_192_256 | ESP_NULL

datatype EspHmac =
  Inte_None | ESP_MD5_HMAC | ESP_SHA_HMAC | ESP_SHA_256 | ESP_SHA_384 | ESP_SHA_512
  | ESP_GMAC_128_192_256

datatype AhHmac = Ah_None | AH_MD5_HMAC | AH_SHA_HMAC

datatype TunnelMode = Tunnel | Transport

datatype IPVersion = IPv4 | IPv6

text \<open>\<open>IFormState\<close> with its three nested objects.\<close>

record TransformSettings =
  ahInte :: AhHmac
  espEncr :: EspEncryption
  espInte :: EspHmac
  tunnelMode :: TunnelMode

record TransportSettings =
  ipProtocol :: IPVersion
  natTraver :: bool

record TunnelSettings =
  gre :: bool
  greKey :: bool

record IFormState =
  packetSize :: number
  transform :: TransformSettings
  transport :: TransportSettings
  tunnelSetting :: TunnelSettings

definition IPV4_HDR_SIZE :: number where
  "IPV4_HDR_SIZE = Fin 20"

definition IPV6_HDR_SIZE :: number where
  "IPV6_HDR_SIZE = Fin 40"

text \<open>The string a template literal puts in for \<open>form.transport.ipProtocol\<close>.\<close>

fun ipProtocolText :: "IPVersion \<Rightarrow> string" where
  "ipProtocolText IPv4 = ''IPv4''"
| "ipProtocolText IPv6 = ''IPv6''"

text \<open>
  The string a template literal puts in for a number. An integer below \<open>10 ^ 21\<close> is written
  with its decimal digits; the validator renders the numbers 28, 48 and 64000 only. The
  shortest-digits rendering of the other finite numbers is not modelled: they give the empty
  string here.
\<close>

definition digitChar :: "nat \<Rightarrow> char" where
  "digitChar d = ''0123456789'' ! d"

function showNat :: "nat \<Rightarrow> string" where
  "showNat n =
     (if n < 10 then [digitChar n]
      else showNat (n div 10) @ [digitChar (n mod 10)])"
  by pat_completeness auto
termination
  by (relation "measure (\<lambda>n. n)") auto

declare showNat.simps [simp del]

definition showInt :: "int \<Rightarrow> string" where
  "showInt i = (if i < 0 then ''-'' @ showNat (nat (- i)) else showNat (nat i))"

definition showNumber :: "number \<Rightarrow> string" where
  "showNumber x =
     (case x of
        NaN \<Rightarrow> ''NaN''
      | PInf \<Rightarrow> ''Infinity''
      | NInf \<Rightarrow> ''-Infinity''
      | Fin q \<Rightarrow> (if q = of_int \<lfloor>q\<rfloor> \<and> \<bar>q\<bar> < 10 ^ 21 then showInt \<lfloor>q\<rfloor> else ''''))"

section \<open>The validator\<close>

definition validateForm :: "IFormState \<Rightarrow> string" where
  "validateForm form =
     (let ipHeaderSize =
            (if ipProtocol (transport form) = IPv4 then IPV4_HDR_SIZE else IPV6_HDR_SIZE);
          minPacketSize = jsAdd ipHeaderSize (Fin 8);
          maxPacketSize = Fin 64000
      in
        if jsLt (packetSize form) minPacketSize \<or> jsGt (packetSize form) maxPacketSize then
          ''Please enter a valid packet size between '' @ showNumber minPacketSize
            @ '' and '' @ showNumber maxPacketSize
        else if espEncr (transform form) = Encr_None
              \<and> espInte (transform form) = Inte_None
              \<and> ahInte (transform form) = Ah_None then
          ''Packet must use an encryption/authentication algorithm.''
        else if espInte (transform form) \<notin> set [Inte_None, ESP_GMAC_128_192_256]
              \<and> espEncr (transform form) = Encr_None then
          ''ESP integrity check can only be selected with an ESP encryption algorithm''
        else if espEncr (transform form) = ESP_GCM_128_192_256
              \<and> espInte (transform form) \<noteq> Inte_None then
          ''ESP-GCM provides both data confidentiality and integrity protection. Do not select a separate authentication algorithm.''
        else if espEncr (transform form) \<noteq> Encr_None
              \<and> espInte (transform form) = ESP_GMAC_128_192_256 then
          ''ESP-GMAC is an authentication-only algorithm and can not be selected with an encryption algorithm.''
        else if ahInte (transform form) \<noteq> Ah_None
              \<and> espInte (transform form) = ESP_GMAC_128_192_256 then
          ''AH algorithms can not be selected with ESP-GMAC.''
        else '''')"

section \<open>The packet composer\<close>

text \<open>
  \<open>calculatePacket\<close> keeps two local variables that its closures and its body update:
  the running \<open>packetLength\<close> and the array \<open>packetDetails\<close>. They are the state
  that the model threads through the steps; \<open>push\<close> appends to the array.
\<close>

record calc_state =
  packetLength :: number
  packetDetails :: "PacketDetail list"

definition push :: "PacketDetail list \<Rightarrow> calc_state \<Rightarrow> calc_state" where
  "push ds s = s\<lparr>packetDetails := packetDetails s @ ds\<rparr>"

definition ipHeaderSize :: "IFormState \<Rightarrow> number" where
  "ipHeaderSize form =
     (if ipProtocol (transport form) = IPv4 then IPV4_HDR_SIZE else IPV6_HDR_SIZE)"

text \<open>The closure \<open>setInnerdata\<close>: it only pushes, \<open>packetLength\<close> is left alone.\<close>

definition setInnerdata :: "IFormState \<Rightarrow> calc_state \<Rightarrow> calc_state" where
  "setInnerdata form s0 =
     (let s1 =
            (if gre (tunnelSetting form) then
               (let sa =
                      (if tunnelMode (transform form) = Tunnel then
                         push [\<lparr>text = ''New '' @ ipProtocolText (ipProtocol (transport form))
                                        @ '' Header for GRE'',
                                 bytes = ipHeaderSize form, group = None\<rparr>] s0
                       else s0)
                in if greKey (tunnelSetting form) then
                     push [\<lparr>text = ''GRE Header + Tunnel Key'', bytes = Fin 8, group = None\<rparr>] sa
                   else
                     push [\<lparr>text = ''GRE Header'', bytes = Fin 4, group = None\<rparr>] sa)
             else s0);
          s2 =
            (if gre (tunnelSetting form) \<or> tunnelMode (transform form) = Tunnel then
               push [\<lparr>text = ''Original '' @ ipProtocolText (ipProtocol (transport form))
                              @ '' Header'',
                       bytes = ipHeaderSize form, group = None\<rparr>] s1
             else s1)
      in push [\<lparr>text = ''Original '' @ ipProtocolText (ipProtocol (transport form))
                     @ '' Payload'',
              bytes = jsSub (packetSize form) (ipHeaderSize form), group = None\<rparr>] s2)"

text \<open>
  The closure \<open>getPadSize\<close>:
  \<open>Math.ceil((packetLength + 2) / blockSize) * blockSize - (packetLength + 2)\<close>.
\<close>

definition getPadSize :: "number \<Rightarrow> number \<Rightarrow> number" where
  "getPadSize len blockSize =
     jsSub (jsMul (jsCeil (jsDiv (jsAdd len (Fin 2)) blockSize)) blockSize)
       (jsAdd len (Fin 2))"

text \<open>Step 1, ``Determine IP headers''.\<close>

definition determineIpHeaders :: "IFormState \<Rightarrow> calc_state \<Rightarrow> calc_state" where
  "determineIpHeaders form s =
     (if tunnelMode (transform form) = Tunnel then
        (let s1 = push [\<lparr>text = ''New '' @ ipProtocolText (ipProtocol (transport form))
                               @ '' Header for IPsec'',
                        bytes = ipHeaderSize form, group = None\<rparr>] s;
             s2 = s1\<lparr>packetLength := jsAdd (packetLength s1) (packetSize form)\<rparr>
         in if gre (tunnelSetting form) then
              s2\<lparr>packetLength := jsAdd (packetLength s2) (ipHeaderSize form)\<rparr>
            else s2)
      else if gre (tunnelSetting form) then
        (let s1 = push [\<lparr>text = ''New '' @ ipProtocolText (ipProtocol (transport form))
                               @ '' Header for IPsec'',
                        bytes = ipHeaderSize form, group = None\<rparr>] s
         in s1\<lparr>packetLength := jsAdd (packetLength s1) (packetSize form)\<rparr>)
      else
        (let s1 = push [\<lparr>text = ''Original '' @ ipProtocolText (ipProtocol (transport form))
                               @ '' Header'',
                        bytes = ipHeaderSize form, group = None\<rparr>] s
         in s1\<lparr>packetLength := jsSub (packetSize form) (ipHeaderSize form)\<rparr>))"

text \<open>Step 2, the UDP header of NAT traversal.\<close>

definition addNatTraversal :: "IFormState \<Rightarrow> calc_state \<Rightarrow> calc_state" where
  "addNatTraversal form s =
     (if natTraver (transport form) then
        push [\<lparr>text = ''UDP Header (NAT-T)'', bytes = Fin 8, group = None\<rparr>] s
      else s)"

text \<open>Step 3, ``Calculate padding from GRE''.\<close>

definition paddingFromGre :: "IFormState \<Rightarrow> calc_state \<Rightarrow> calc_state" where
  "paddingFromGre form s =
     (if gre (tunnelSetting form) then
        (let s1 = s\<lparr>packetLength := jsAdd (packetLength s) (Fin 4)\<rparr>
         in if greKey (tunnelSetting form) then
              s1\<lparr>packetLength := jsAdd (packetLength s1) (Fin 4)\<rparr>
            else s1)
      else s)"

text \<open>Step 4, ``Add Authentication Header''.\<close>

definition addAuthenticationHeader :: "IFormState \<Rightarrow> calc_state \<Rightarrow> calc_state" where
  "addAuthenticationHeader form s =
     (if ahInte (transform form) \<noteq> Ah_None then
        (let s1 = push [\<lparr>text = ''Next Header'', bytes = Fin 1, group = Some ''AH Header''\<rparr>,
                        \<lparr>text = ''Payload'', bytes = Fin 1, group = Some ''AH Header''\<rparr>,
                        \<lparr>text = ''Reserved'', bytes = Fin 2, group = Some ''AH Header''\<rparr>,
                        \<lparr>text = ''SPI'', bytes = Fin 4, group = Some ''AH Header''\<rparr>,
                        \<lparr>text = ''Sequence'', bytes = Fin 4, group = Some ''AH Header''\<rparr>] s;
             s2 = (if ahInte (transform form) = AH_MD5_HMAC then
                     push [\<lparr>text = ''AH Digest'', bytes = Fin 12, group = None\<rparr>] s1
                   else s1);
             s3 = (if ahInte (transform form) = AH_SHA_HMAC then
                     push [\<lparr>text = ''AH Digest'', bytes = Fin 12, group = None\<rparr>] s2
                   else s2)
         in if espEncr (transform form) = Encr_None \<and> espInte (transform form) = Inte_None
            then setInnerdata form s3
            else s3)
      else s)"

text \<open>Step 5, ``ESP Header, Inner Data, and ESP Trailer'', in its parts.\<close>

definition espPad :: "number \<Rightarrow> number \<Rightarrow> PacketDetail" where
  "espPad len blockSize =
     \<lparr>text = ''ESP Pad'', bytes = getPadSize len blockSize, group = Some ''ESP Trailer''\<rparr>"

definition espIV :: "number \<Rightarrow> PacketDetail" where
  "espIV n = \<lparr>text = ''ESP IV'', bytes = n, group = None\<rparr>"

definition espICV :: "number \<Rightarrow> PacketDetail" where
  "espICV n = \<lparr>text = ''ESP ICV'', bytes = n, group = Some ''ESP Trailer''\<rparr>"

text \<open>The \<open>switch\<close> on \<open>form.transform.espEncr\<close>.\<close>

fun espEncrSwitch :: "EspEncryption \<Rightarrow> IFormState \<Rightarrow> calc_state \<Rightarrow> calc_state" where
  "espEncrSwitch ESP_DES_3DES form s =
     (let s1 = setInnerdata form (push [espIV (Fin 8)] s)
      in push [espPad (packetLength s1) (Fin 8)] s1)"
| "espEncrSwitch ESP_AES_128_192_256 form s =
     (let s1 = setInnerdata form (push [espIV (Fin 16)] s)
      in push [espPad (packetLength s1) (Fin 16)] s1)"
| "espEncrSwitch ESP_GCM_128_192_256 form s =
     (let s1 = setInnerdata form (push [espIV (Fin 8)] s)
      in push [espPad (packetLength s1) (Fin 4)] s1)"
| "espEncrSwitch ESP_NULL form s =
     (let s1 = setInnerdata form s
      in push [espPad (packetLength s1) (Fin 4)] s1)"
| "espEncrSwitch Encr_None form s = s"

text \<open>The \<open>if\<close> on ESP-GMAC that follows the switch.\<close>

definition espGmacBranch :: "IFormState \<Rightarrow> calc_state \<Rightarrow> calc_state" where
  "espGmacBranch form s =
     (if espInte (transform form) = ESP_GMAC_128_192_256 then
        (let s1 = setInnerdata form (push [espIV (Fin 8)] s)
         in push [espPad (packetLength s1) (Fin 4)] s1)
      else s)"

text \<open>The \<open>switch\<close> on \<open>form.transform.espInte\<close>; the absent cases push nothing.\<close>

fun espInteSwitch :: "EspHmac \<Rightarrow> calc_state \<Rightarrow> calc_state" where
  "espInteSwitch ESP_MD5_HMAC s = push [espICV (Fin 12)] s"
| "espInteSwitch ESP_SHA_HMAC s = push [espICV (Fin 12)] s"
| "espInteSwitch ESP_SHA_256 s = push [espICV (Fin 16)] s"
| "espInteSwitch ESP_SHA_384 s = push [espICV (Fin 24)] s"
| "espInteSwitch ESP_SHA_512 s = push [espICV (Fin 32)] s"
| "espInteSwitch Inte_None s = s"
| "espInteSwitch ESP_GMAC_128_192_256 s = s"

definition addEsp :: "IFormState \<Rightarrow> calc_state \<Rightarrow> calc_state" where
  "addEsp form s =
     (if espEncr (transform form) \<noteq> Encr_None
         \<or> espInte (transform form) = ESP_GMAC_128_192_256 then
        (let s1 = push [\<lparr>text = ''SPI'', bytes = Fin 4, group = Some ''ESP Header''\<rparr>,
                        \<lparr>text = ''Sequence'', bytes = Fin 4, group = Some ''ESP Header''\<rparr>] s;
             s2 = espEncrSwitch (espEncr (transform form)) form s1;
             s3 = espGmacBranch form s2;
             s4 = push [\<lparr>text = ''Pad Length'', bytes = Fin 1, group = Some ''ESP Trailer''\<rparr>,
                        \<lparr>text = ''Next Header'', bytes = Fin 1, group = Some ''ESP Trailer''\<rparr>] s3;
             s5 = (if espEncr (transform form) = ESP_GCM_128_192_256
                      \<or> espInte (transform form) = ESP_GMAC_128_192_256 then
                     push [espICV (Fin 16)] s4
                   else s4)
         in espInteSwitch (espInte (transform form)) s5)
      else s)"

definition initial :: calc_state where
  "initial = \<lparr>packetLength = Fin 0, packetDetails = []\<rparr>"

text \<open>The state after steps 1 to 3, where the padding base is complete.\<close>

definition afterGre :: "IFormState \<Rightarrow> calc_state" where
  "afterGre form = paddingFromGre form (addNatTraversal form (determineIpHeaders form initial))"

definition calculatePacket :: "IFormState \<Rightarrow> PacketDetail list" where
  "calculatePacket form =
     packetDetails (addEsp form (addAuthenticationHeader form (afterGre form)))"

text \<open>The default form values of the application, \<open>defaultFormValues\<close>.\<close>

definition defaultFormValues :: IFormState where
  "defaultFormValues =
     \<lparr>packetSize = Fin 100,
      transform = \<lparr>ahInte = Ah_None, espEncr = ESP_AES_128_192_256,
                   espInte = ESP_SHA_HMAC, tunnelMode = Tunnel\<rparr>,
      transport = \<lparr>ipProtocol = IPv4, natTraver = False\<rparr>,
      tunnelSetting = \<lparr>gre = False, greKey = False\<rparr>\<rparr>"

section \<open>Derived notions\<close>

subsection \<open>Numbers that the arithmetic keeps exact\<close>

text \<open>
  \<open>finValue\<close> reads a finite number. An integer of magnitude at most \<open>2 ^ 52\<close> is far
  enough from the 53 bits of a double for every sum, difference, quotient and product of a
  run to be exact.
\<close>

definition isFin :: "number \<Rightarrow> bool" where
  "isFin x = (case x of Fin q \<Rightarrow> True | _ \<Rightarrow> False)"

definition finValue :: "number \<Rightarrow> real" where
  "finValue x = (case x of Fin q \<Rightarrow> q | _ \<Rightarrow> 0)"

definition safeInteger :: "number \<Rightarrow> bool" where
  "safeInteger x = (case x of Fin q \<Rightarrow> q = of_int \<lfloor>q\<rfloor> \<and> \<bar>q\<bar> \<le> 2 ^ 52 | _ \<Rightarrow> False)"

subsection \<open>The segments each step pushes\<close>

text \<open>
  The steps only append to \<open>packetDetails\<close>. The lists below are what each of them
  appends, as functions of the form and of the running length; the section on the steps
  proves that the state-passing model appends exactly these. \<open>paddingBase\<close> is the
  running length after steps 1 to 3, with the additions in the order in which the code makes
  them, and \<open>emitted f s\<close> is what a step \<open>f\<close> appends when it starts in state \<open>s\<close>.
\<close>

definition innerData :: "IFormState \<Rightarrow> PacketDetail list" where
  "innerData form = packetDetails (setInnerdata form initial)"

definition paddingBase :: "IFormState \<Rightarrow> number" where
  "paddingBase form =
     (let len =
            (if tunnelMode (transform form) = Tunnel then
               (if gre (tunnelSetting form) then
                  jsAdd (jsAdd (Fin 0) (packetSize form)) (ipHeaderSize form)
                else jsAdd (Fin 0) (packetSize form))
             else if gre (tunnelSetting form) then jsAdd (Fin 0) (packetSize form)
             else jsSub (packetSize form) (ipHeaderSize form))
      in if gre (tunnelSetting form) then
           (if greKey (tunnelSetting form) then jsAdd (jsAdd len (Fin 4)) (Fin 4)
            else jsAdd len (Fin 4))
         else len)"

definition ahSegments :: "IFormState \<Rightarrow> PacketDetail list" where
  "ahSegments form =
     (if ahInte (transform form) \<noteq> Ah_None then
        [\<lparr>text = ''Next Header'', bytes = Fin 1, group = Some ''AH Header''\<rparr>,
         \<lparr>text = ''Payload'', bytes = Fin 1, group = Some ''AH Header''\<rparr>,
         \<lparr>text = ''Reserved'', bytes = Fin 2, group = Some ''AH Header''\<rparr>,
         \<lparr>text = ''SPI'', bytes = Fin 4, group = Some ''AH Header''\<rparr>,
         \<lparr>text = ''Sequence'', bytes = Fin 4, group = Some ''AH Header''\<rparr>,
         \<lparr>text = ''AH Digest'', bytes = Fin 12, group = None\<rparr>]
        @ (if espEncr (transform form) = Encr_None \<and> espInte (transform form) = Inte_None
           then innerData form else [])
      else [])"

definition encrSegments :: "IFormState \<Rightarrow> number \<Rightarrow> PacketDetail list" where
  "encrSegments form len =
     (case espEncr (transform form) of
        Encr_None \<Rightarrow> []
      | ESP_DES_3DES \<Rightarrow> espIV (Fin 8) # innerData form @ [espPad len (Fin 8)]
      | ESP_AES_128_192_256 \<Rightarrow> espIV (Fin 16) # innerData form @ [espPad len (Fin 16)]
      | ESP_GCM_128_192_256 \<Rightarrow> espIV (Fin 8) # innerData form @ [espPad len (Fin 4)]
      | ESP_NULL \<Rightarrow> innerData form @ [espPad len (Fin 4)])"

definition gmacSegments :: "IFormState \<Rightarrow> number \<Rightarrow> PacketDetail list" where
  "gmacSegments form len =
     (if espInte (transform form) = ESP_GMAC_128_192_256 then
        espIV (Fin 8) # innerData form @ [espPad len (Fin 4)]
      else [])"

definition icvSegments :: "IFormState \<Rightarrow> PacketDetail list" where
  "icvSegments form =
     (if espEncr (transform form) = ESP_GCM_128_192_256
         \<or> espInte (transform form) = ESP_GMAC_128_192_256 then [espICV (Fin 16)] else [])
     @ (case espInte (transform form) of
          ESP_MD5_HMAC \<Rightarrow> [espICV (Fin 12)]
        | ESP_SHA_HMAC \<Rightarrow> [espICV (Fin 12)]
        | ESP_SHA_256 \<Rightarrow> [espICV (Fin 16)]
        | ESP_SHA_384 \<Rightarrow> [espICV (Fin 24)]
        | ESP_SHA_512 \<Rightarrow> [espICV (Fin 32)]
        | Inte_None \<Rightarrow> []
        | ESP_GMAC_128_192_256 \<Rightarrow> [])"

definition espSegments :: "IFormState \<Rightarrow> number \<Rightarrow> PacketDetail list" where
  "espSegments form len =
     (if espEncr (transform form) \<noteq> Encr_None
         \<or> espInte (transform form) = ESP_GMAC_128_192_256 then
        [\<lparr>text = ''SPI'', bytes = Fin 4, group = Some ''ESP Header''\<rparr>,
         \<lparr>text = ''Sequence'', bytes = Fin 4, group = Some ''ESP Header''\<rparr>]
        @ encrSegments form len @ gmacSegments form len
        @ [\<lparr>text = ''Pad Length'', bytes = Fin 1, group = Some ''ESP Trailer''\<rparr>,
           \<lparr>text = ''Next Header'', bytes = Fin 1, group = Some ''ESP Trailer''\<rparr>]
        @ icvSegments form
      else [])"

definition emitted :: "(calc_state \<Rightarrow> calc_state) \<Rightarrow> calc_state \<Rightarrow> PacketDetail list" where
  "emitted f s = drop (length (packetDetails s)) (packetDetails (f s))"

subsection \<open>The rules of the validator, as the specification words them\<close>

text \<open>
  Each rule is the condition under which the validator fails, paired with its message;
  \<open>firstViolation\<close> is the message of the first rule in the list that is violated. Rule 1
  is that the packet size lies outside the interval from the header size plus 8 to 64000: a
  packet size that is not a number, or not a finite one, lies in no interval.
\<close>

definition headerSize :: "IPVersion \<Rightarrow> real" where
  "headerSize v = (case v of IPv4 \<Rightarrow> 20 | IPv6 \<Rightarrow> 40)"

definition inInterval :: "real \<Rightarrow> real \<Rightarrow> number \<Rightarrow> bool" where
  "inInterval lo hi x = (case x of Fin q \<Rightarrow> lo \<le> q \<and> q \<le> hi | _ \<Rightarrow> False)"

definition rule1 :: "IFormState \<Rightarrow> bool" where
  "rule1 form \<longleftrightarrow>
     \<not> inInterval (headerSize (ipProtocol (transport form)) + 8) 64000 (packetSize form)"

definition rule2 :: "IFormState \<Rightarrow> bool" where
  "rule2 form \<longleftrightarrow>
     espEncr (transform form) = Encr_None \<and> espInte (transform form) = Inte_None
     \<and> ahInte (transform form) = Ah_None"

definition rule3 :: "IFormState \<Rightarrow> bool" where
  "rule3 form \<longleftrightarrow>
     espInte (transform form) \<noteq> Inte_None \<and> espInte (transform form) \<noteq> ESP_GMAC_128_192_256
     \<and> espEncr (transform form) = Encr_None"

definition rule4 :: "IFormState \<Rightarrow> bool" where
  "rule4 form \<longleftrightarrow>
     espEncr (transform form) = ESP_GCM_128_192_256 \<and> espInte (transform form) \<noteq> Inte_None"

definition rule5 :: "IFormState \<Rightarrow> bool" where
  "rule5 form \<longleftrightarrow>
     espInte (transform form) = ESP_GMAC_128_192_256 \<and> espEncr (transform form) \<noteq> Encr_None"

definition rule6 :: "IFormState \<Rightarrow> bool" where
  "rule6 form \<longleftrightarrow>
     ahInte (transform form) \<noteq> Ah_None \<and> espInte (transform form) = ESP_GMAC_128_192_256"

definition packetSizeMessage :: "IFormState \<Rightarrow> string" where
  "packetSizeMessage form =
     ''Please enter a valid packet size between ''
     @ showInt \<lfloor>headerSize (ipProtocol (transport form)) + 8\<rfloor> @ '' and '' @ showInt 64000"

definition rules :: "((IFormState \<Rightarrow> bool) \<times> (IFormState \<Rightarrow> string)) list" where
  "rules =
     [(rule1, packetSizeMessage),
      (rule2, \<lambda>_. ''Packet must use an encryption/authentication algorithm.''),
      (rule3, \<lambda>_. ''ESP integrity check can only be selected with an ESP encryption algorithm''),
      (rule4, \<lambda>_. ''ESP-GCM provides both data confidentiality and integrity protection. Do not select a separate authentication algorithm.''),
      (rule5, \<lambda>_. ''ESP-GMAC is an authentication-only algorithm and can not be selected with an encryption algorithm.''),
      (rule6, \<lambda>_. ''AH algorithms can not be selected with ESP-GMAC.'')]"

definition firstViolation :: "IFormState \<Rightarrow> string option" where
  "firstViolation form = map_option (\<lambda>r. snd r form) (find (\<lambda>r. fst r form) rules)"

subsection \<open>Labels and forms used in the statements\<close>

definition payloadText :: "IFormState \<Rightarrow> string" where
  "payloadText form =
     ''Original '' @ ipProtocolText (ipProtocol (transport form)) @ '' Payload''"

definition withGreKey :: "bool \<Rightarrow> IFormState \<Rightarrow> IFormState" where
  "withGreKey k form = form\<lparr>tunnelSetting := (tunnelSetting form)\<lparr>greKey := k\<rparr>\<rparr>"

text \<open>
  How a segment \<open>d\<close> of the run without the GRE key and the segment \<open>d'\<close> at the same place
  of the run with it are related, for the padding base \<open>len\<close> of the run without the key: a
  segment labelled ``GRE Header'' is the 4-byte GRE header and faces the 8-byte header with
  the tunnel key; an ``ESP Pad'' faces the pad of the same block size for the base
  \<open>len + 4\<close>; every other segment faces itself.
\<close>

definition greKeyVariant :: "number \<Rightarrow> PacketDetail \<Rightarrow> PacketDetail \<Rightarrow> bool" where
  "greKeyVariant len d d' \<longleftrightarrow>
     (if text d = ''GRE Header'' then
        d = \<lparr>text = ''GRE Header'', bytes = Fin 4, group = None\<rparr>
        \<and> d' = \<lparr>text = ''GRE Header + Tunnel Key'', bytes = Fin 8, group = None\<rparr>
      else if text d = ''ESP Pad'' then
        (\<exists>blockSize \<in> set [Fin 4, Fin 8, Fin 16].
           d = espPad len blockSize \<and> d' = espPad (jsAdd len (Fin 4)) blockSize)
      else d' = d)"

definition greFormValues :: "bool \<Rightarrow> IFormState" where
  "greFormValues k =
     \<lparr>packetSize = Fin 100,
      transform = \<lparr>ahInte = Ah_None, espEncr = ESP_AES_128_192_256,
                   espInte = ESP_SHA_HMAC, tunnelMode = Tunnel\<rparr>,
      transport = \<lparr>ipProtocol = IPv4, natTraver = False\<rparr>,
      tunnelSetting = \<lparr>gre = True, greKey = k\<rparr>\<rparr>"

definition aesGmacFormValues :: IFormState where
  "aesGmacFormValues =
     defaultFormValues\<lparr>transform := (transform defaultFormValues)
        \<lparr>espInte := ESP_GMAC_128_192_256\<rparr>\<rparr>"

definition inteOnlyFormValues :: IFormState where
  "inteOnlyFormValues =
     defaultFormValues\<lparr>transform := (transform defaultFormValues)\<lparr>espEncr := Encr_None\<rparr>\<rparr>"

definition gcmGmacAhFormValues :: IFormState where
  "gcmGmacAhFormValues =
     defaultFormValues\<lparr>transform :=
        \<lparr>ahInte = AH_MD5_HMAC, espEncr = ESP_GCM_128_192_256,
         espInte = ESP_GMAC_128_192_256, tunnelMode = Tunnel\<rparr>\<rparr>"

text \<open>
  The default form with an emptied packet size field, for which \<open>parseInt\<close> gives \<open>NaN\<close>,
  and with the packet size \<open>2 ^ 60\<close>.
\<close>

definition nanFormValues :: IFormState where
  "nanFormValues = defaultFormValues\<lparr>packetSize := NaN\<rparr>"

definition bigFormValues :: IFormState where
  "bigFormValues = defaultFormValues\<lparr>packetSize := Fin 1152921504606846976\<rparr>"

definition bigGreFormValues :: "bool \<Rightarrow> IFormState" where
  "bigGreFormValues k = (greFormValues k)\<lparr>packetSize := Fin 1152921504606846976\<rparr>"

section \<open>Facts about numbers\<close>

lemma powi_nat: "0 \<le> k \<Longrightarrow> (2::real) powi k = 2 ^ nat k"
  by (simp add: power_int_def)

lemma powi_neg_nat: "0 \<le> k \<Longrightarrow> (2::real) powi (- k) = inverse (2 ^ nat k)"
  by (simp add: power_int_minus powi_nat)

lemma pow2_le_of_int: "2 ^ k \<le> (n::int) \<Longrightarrow> (2::real) ^ k \<le> of_int n"
proof -
  assume "2 ^ k \<le> n"
  then have "(of_int (2 ^ k) :: real) \<le> of_int n" by (rule iffD2 [OF of_int_le_iff])
  then show ?thesis by simp
qed

lemma of_int_le_pow2: "(n::int) \<le> 2 ^ k \<Longrightarrow> (of_int n :: real) \<le> 2 ^ k"
proof -
  assume "n \<le> 2 ^ k"
  then have "(of_int n :: real) \<le> of_int (2 ^ k)" by (rule iffD2 [OF of_int_le_iff])
  then show ?thesis by simp
qed

lemma binade_bounds:
  assumes "0 < q"
  shows "2 powi binade q \<le> q" and "q < 2 powi (binade q + 1)"
proof -
  show "2 powi binade q \<le> q"
  proof (cases "1 \<le> q")
    case True
    then have pos: "0 < \<lfloor>q\<rfloor>" by linarith
    from bitlen_bounds [OF pos] have "2 ^ nat (bitlen \<lfloor>q\<rfloor> - 1) \<le> \<lfloor>q\<rfloor>" ..
    then have "(2::real) ^ nat (bitlen \<lfloor>q\<rfloor> - 1) \<le> of_int \<lfloor>q\<rfloor>"
      by (rule pow2_le_of_int)
    also have "\<dots> \<le> q" by simp
    finally have "(2::real) ^ nat (bitlen \<lfloor>q\<rfloor> - 1) \<le> q" .
    moreover have "0 \<le> bitlen \<lfloor>q\<rfloor> - 1"
      using pos bitlen_eq_zero_iff [of "\<lfloor>q\<rfloor>"] bitlen_nonneg [of "\<lfloor>q\<rfloor>"] by linarith
    ultimately show ?thesis
      using True by (simp add: binade_def powi_nat)
  next
    case False
    define n where "n = \<lceil>1 / q\<rceil> - 1"
    have inv: "1 < 1 / q" using assms False by (simp add: field_simps)
    then have npos: "0 < n" unfolding n_def by linarith
    from bitlen_bounds [OF npos] have "n < 2 ^ nat (bitlen n)" ..
    then have "n + 1 \<le> 2 ^ nat (bitlen n)" by linarith
    then have "(of_int (n + 1) :: real) \<le> 2 ^ nat (bitlen n)"
      by (rule of_int_le_pow2)
    moreover have "1 / q \<le> of_int (n + 1)" unfolding n_def by simp
    ultimately have "1 / q \<le> 2 ^ nat (bitlen n)" by linarith
    then have "1 \<le> 2 ^ nat (bitlen n) * q"
      using assms by (simp add: field_simps)
    then have "inverse (2 ^ nat (bitlen n)) \<le> q"
      by (simp add: field_simps)
    moreover have "binade q = - bitlen n"
      using False by (simp add: binade_def n_def)
    moreover have "0 \<le> bitlen n" by (rule bitlen_nonneg)
    ultimately show ?thesis
      by (simp add: powi_neg_nat)
  qed
  show "q < 2 powi (binade q + 1)"
  proof (cases "1 \<le> q")
    case True
    then have pos: "0 < \<lfloor>q\<rfloor>" by linarith
    from bitlen_bounds [OF pos] have "\<lfloor>q\<rfloor> < 2 ^ nat (bitlen \<lfloor>q\<rfloor>)" ..
    then have "\<lfloor>q\<rfloor> + 1 \<le> 2 ^ nat (bitlen \<lfloor>q\<rfloor>)" by linarith
    then have "(of_int (\<lfloor>q\<rfloor> + 1) :: real) \<le> 2 ^ nat (bitlen \<lfloor>q\<rfloor>)"
      by (rule of_int_le_pow2)
    moreover have "q < of_int (\<lfloor>q\<rfloor> + 1)" by linarith
    ultimately have "q < 2 ^ nat (bitlen \<lfloor>q\<rfloor>)" by linarith
    moreover have "0 \<le> bitlen \<lfloor>q\<rfloor>" by (rule bitlen_nonneg)
    ultimately show ?thesis
      using True by (simp add: binade_def powi_nat)
  next
    case False
    define n where "n = \<lceil>1 / q\<rceil> - 1"
    have inv: "1 < 1 / q" using assms False by (simp add: field_simps)
    then have npos: "0 < n" unfolding n_def by linarith
    have b1: "1 \<le> bitlen n"
      using npos bitlen_eq_zero_iff [of n] bitlen_nonneg [of n] by linarith
    from bitlen_bounds [OF npos] have "2 ^ nat (bitlen n - 1) \<le> n" ..
    then have "(2::real) ^ nat (bitlen n - 1) \<le> of_int n"
      by (rule pow2_le_of_int)
    moreover have "of_int n < 1 / q" unfolding n_def by linarith
    ultimately have "2 ^ nat (bitlen n - 1) < 1 / q" by linarith
    then have "q * 2 ^ nat (bitlen n - 1) < 1"
      using assms by (simp add: field_simps)
    then have "q < inverse (2 ^ nat (bitlen n - 1))"
      by (simp add: field_simps)
    moreover have "binade q + 1 = - (bitlen n - 1)"
      using False by (simp add: binade_def n_def)
    moreover have "0 \<le> bitlen n - 1" using b1 by simp
    ultimately show ?thesis
      by (simp only: powi_neg_nat)
  qed
qed


lemma binade_unique:
  assumes "0 < q" and "2 powi e \<le> q" and "q < 2 powi (e + 1)"
  shows "binade q = e"
proof -
  have mono: "a \<le> b \<Longrightarrow> (2::real) powi a \<le> 2 powi b" for a b :: int
    by (rule power_int_increasing) simp_all
  have "2 powi binade q < (2::real) powi (e + 1)"
    using binade_bounds(1) [OF assms(1)] assms(3) by linarith
  then have "binade q < e + 1"
    using mono [of "e + 1" "binade q"] by linarith
  moreover have "2 powi e < (2::real) powi (binade q + 1)"
    using binade_bounds(2) [OF assms(1)] assms(2) by linarith
  then have "e < binade q + 1"
    using mono [of "binade q + 1" e] by linarith
  ultimately show ?thesis by linarith
qed

lemma binade_less:
  assumes "0 < q" and "q < 2 powi k"
  shows "binade q < k"
proof -
  have mono: "a \<le> b \<Longrightarrow> (2::real) powi a \<le> 2 powi b" for a b :: int
    by (rule power_int_increasing) simp_all
  have "2 powi binade q < (2::real) powi k"
    using binade_bounds(1) [OF assms(1)] assms(2) by linarith
  then show ?thesis
    using mono [of k "binade q"] by linarith
qed

lemma roundHalfEven_of_int [simp]: "roundHalfEven (of_int n) = n"
  by (simp add: roundHalfEven_def)

text \<open>An integer of less than 54 bits, divided by a power of two, is a double.\<close>

lemma roundDouble_exact:
  assumes "\<bar>m\<bar> < 2 ^ 53" and "j \<le> 52"
  shows "roundDouble (of_int m / 2 ^ j) = Fin (of_int m / 2 ^ j)"
proof (cases "m = 0")
  case True
  then show ?thesis by (simp add: roundDouble_def)
next
  case False
  define q :: real where "q = of_int m / 2 ^ j"
  have q0: "q \<noteq> 0" using False by (simp add: q_def)
  then have qpos: "0 < \<bar>q\<bar>" by simp
  have "(of_int \<bar>m\<bar> :: real) < of_int (2 ^ 53)"
    using assms(1) by (simp only: of_int_less_iff)
  then have mlt: "\<bar>of_int m :: real\<bar> < 2 ^ 53" by simp
  have "\<bar>q\<bar> = \<bar>of_int m\<bar> / 2 ^ j" by (simp add: q_def)
  also have "\<dots> < 2 ^ 53 / 2 ^ j" using mlt by (simp add: divide_strict_right_mono)
  also have "\<dots> = 2 powi (53 - int j)"
    using assms(2) by (simp add: power_int_diff)
  finally have qlt: "\<bar>q\<bar> < 2 powi (53 - int j)" .
  define e where "e = max (binade \<bar>q\<bar>) (- 1022)"
  have "binade \<bar>q\<bar> < 53 - int j" using qpos qlt by (rule binade_less)
  then have e_le: "e \<le> 52 - int j" using assms(2) by (simp add: e_def)
  have e_ge: "- 1022 \<le> e" by (simp add: e_def)
  define t where "t = nat (52 - int j - e)"
  have t: "int t = 52 - int j - e" using e_le by (simp add: t_def)
  have "(2::real) powi (52 - e) = inverse (2 powi (e - 52))"
    using power_int_minus [of "2::real" "e - 52"] by simp
  then have "q / 2 powi (e - 52) = q * 2 powi (52 - e)"
    by (simp only: divide_inverse)
  also have "2 powi (52 - e) = (2::real) powi (int j + int t)"
    using t by simp
  also have "\<dots> = 2 ^ j * 2 ^ t"
    by (simp add: power_int_add)
  finally have scaled: "q / 2 powi (e - 52) = of_int (m * 2 ^ t)"
    by (simp add: q_def)
  have r: "of_int (roundHalfEven (q / 2 powi (e - 52))) * 2 powi (e - 52) = q"
  proof -
    have "of_int (roundHalfEven (q / 2 powi (e - 52))) = q / 2 powi (e - 52)"
      by (simp only: scaled roundHalfEven_of_int)
    then show ?thesis by simp
  qed
  have "\<bar>q\<bar> \<le> \<bar>of_int m\<bar>"
    by (simp add: q_def abs_mult field_simps mult_le_cancel_left1 abs_le_iff)
  with mlt have "\<bar>q\<bar> < 2 ^ 53" by linarith
  also have "(2::real) ^ 53 \<le> 2 ^ 1024" by (rule power_increasing) simp_all
  finally have small: "\<not> 2 ^ 1024 \<le> \<bar>q\<bar>" by simp
  show ?thesis
    using q0 small r
    by (simp add: roundDouble_def Let_def e_def [symmetric] q_def [symmetric])
qed

lemma roundDouble_int:
  "\<bar>m\<bar> < 2 ^ 53 \<Longrightarrow> roundDouble (of_int m) = Fin (of_int m)"
  using roundDouble_exact [of m 0] by simp

lemma jsAdd_int:
  "\<bar>a + b\<bar> < 2 ^ 53 \<Longrightarrow> jsAdd (Fin (of_int a)) (Fin (of_int b)) = Fin (of_int (a + b))"
  using roundDouble_int [of "a + b"] by simp

lemma jsSub_int:
  "\<bar>a - b\<bar> < 2 ^ 53 \<Longrightarrow> jsSub (Fin (of_int a)) (Fin (of_int b)) = Fin (of_int (a - b))"
  using roundDouble_int [of "a - b"] by (simp add: jsSub_def)

lemma jsMul_int:
  "\<bar>a * b\<bar> < 2 ^ 53 \<Longrightarrow> jsMul (Fin (of_int a)) (Fin (of_int b)) = Fin (of_int (a * b))"
  using roundDouble_int [of "a * b"] by simp

text \<open>Rounding at the packet size \<open>2 ^ 60\<close>, where doubles are 256 apart.\<close>

lemma roundDouble_2_60 [simp]:
  "roundDouble 1152921504606846976 = Fin 1152921504606846976"
proof -
  have b: "binade (1152921504606846976 :: real) = 60"
    by (rule binade_unique) simp_all
  show ?thesis
    by (simp add: roundDouble_def b roundHalfEven_def Let_def)
qed

lemma roundDouble_2_60_minus_20 [simp]:
  "roundDouble 1152921504606846956 = Fin 1152921504606846976"
proof -
  have b: "binade (1152921504606846956 :: real) = 59"
    by (rule binade_unique) simp_all
  show ?thesis
    by (simp add: roundDouble_def b roundHalfEven_def Let_def)
qed

lemma roundDouble_2_60_plus_2 [simp]:
  "roundDouble 1152921504606846978 = Fin 1152921504606846976"
proof -
  have b: "binade (1152921504606846978 :: real) = 60"
    by (rule binade_unique) simp_all
  show ?thesis
    by (simp add: roundDouble_def b roundHalfEven_def Let_def)
qed

lemma roundDouble_2_60_plus_4 [simp]:
  "roundDouble 1152921504606846980 = Fin 1152921504606846976"
proof -
  have b: "binade (1152921504606846980 :: real) = 60"
    by (rule binade_unique) simp_all
  show ?thesis
    by (simp add: roundDouble_def b roundHalfEven_def Let_def)
qed

lemma roundDouble_2_60_plus_20 [simp]:
  "roundDouble 1152921504606846996 = Fin 1152921504606846976"
proof -
  have b: "binade (1152921504606846996 :: real) = 60"
    by (rule binade_unique) simp_all
  show ?thesis
    by (simp add: roundDouble_def b roundHalfEven_def Let_def)
qed

lemma roundDouble_2_56 [simp]:
  "roundDouble 72057594037927936 = Fin 72057594037927936"
proof -
  have b: "binade (72057594037927936 :: real) = 56"
    by (rule binade_unique) simp_all
  show ?thesis
    by (simp add: roundDouble_def b roundHalfEven_def Let_def)
qed


lemma roundDouble_zero [simp]: "roundDouble 0 = Fin 0"
  by (simp add: roundDouble_def)

lemma roundDouble_one [simp]: "roundDouble 1 = Fin 1"
  using roundDouble_int [of 1] by simp

lemma roundDouble_numeral [simp]:
  "(numeral k :: int) < 2 ^ 53 \<Longrightarrow> roundDouble (numeral k) = Fin (numeral k)"
  using roundDouble_int [of "numeral k"] by simp

lemma roundDouble_neg_numeral [simp]:
  "(numeral k :: int) < 2 ^ 53 \<Longrightarrow> roundDouble (- numeral k) = Fin (- numeral k)"
  using roundDouble_int [of "- numeral k"] by simp

lemma safeIntegerE:
  assumes "safeInteger x"
  obtains m where "x = Fin (of_int m)" and "\<bar>m\<bar> \<le> 2 ^ 52"
proof -
  from assms obtain q where x: "x = Fin q" and q: "q = of_int \<lfloor>q\<rfloor>" and b: "\<bar>q\<bar> \<le> 2 ^ 52"
    by (auto simp: safeInteger_def split: number.splits)
  from b q have "\<bar>of_int \<lfloor>q\<rfloor> :: real\<bar> \<le> of_int (2 ^ 52)" by simp
  then have "\<bar>\<lfloor>q\<rfloor>\<bar> \<le> 2 ^ 52"
    by (simp only: of_int_abs [symmetric] of_int_le_iff)
  with x q that show thesis by metis
qed

text \<open>
  For a base of magnitude at most \<open>2 ^ 52\<close> and the block sizes of the program, the pad the
  code computes is the value of the formula in exact arithmetic.
\<close>

lemma getPadSize_exact:
  assumes "\<bar>len\<bar> \<le> 2 ^ 52" and "blockSize \<in> {4, 8, 16}"
  shows "getPadSize (Fin (of_int len)) (Fin (of_int blockSize))
         = Fin (of_int (\<lceil>of_int (len + 2) / of_int blockSize :: real\<rceil> * blockSize - (len + 2)))"
proof -
  obtain j where j: "blockSize = 2 ^ j" "j \<le> 52"
  proof -
    from assms(2) consider "blockSize = 2 ^ 2" | "blockSize = 2 ^ 3" | "blockSize = 2 ^ 4"
      by auto
    then show thesis
      by cases (use that [of 2] that [of 3] that [of 4] in auto)
  qed
  have small: "\<bar>len + 2\<bar> < 2 ^ 53" using assms(1) by simp
  have sum: "jsAdd (Fin (of_int len)) (Fin 2) = Fin (of_int (len + 2))"
    using jsAdd_int [of len 2] small by simp
  have quot: "jsDiv (Fin (of_int (len + 2))) (Fin (of_int blockSize))
              = Fin (of_int (len + 2) / of_int blockSize)"
    using roundDouble_exact [OF small j(2)] by (simp add: j(1))
  define c where "c = \<lceil>of_int (len + 2) / of_int blockSize :: real\<rceil>"
  have bpos: "0 < blockSize" and ble: "blockSize \<le> 16" using assms(2) by auto
  have c_up: "c * blockSize < len + 2 + blockSize"
  proof -
    have "of_int c < of_int (len + 2) / of_int blockSize + (1::real)"
      unfolding c_def by linarith
    then have "of_int c * of_int blockSize < (of_int (len + 2) + of_int blockSize :: real)"
      using bpos by (simp add: field_simps)
    then have "(of_int (c * blockSize) :: real) < of_int (len + 2 + blockSize)" by simp
    then show ?thesis by (simp only: of_int_less_iff)
  qed
  have c_lo: "len + 2 \<le> c * blockSize"
  proof -
    have "of_int (len + 2) / of_int blockSize \<le> (of_int c :: real)"
      unfolding c_def by linarith
    then have "(of_int (len + 2) :: real) \<le> of_int c * of_int blockSize"
      using bpos by (simp add: field_simps)
    then have "(of_int (len + 2) :: real) \<le> of_int (c * blockSize)" by simp
    then show ?thesis by (simp only: of_int_le_iff)
  qed
  have prod_small: "\<bar>c * blockSize\<bar> < 2 ^ 53"
    using c_up c_lo ble assms(1) by simp
  have prod: "jsMul (Fin (of_int c)) (Fin (of_int blockSize)) = Fin (of_int (c * blockSize))"
    using prod_small by (rule jsMul_int)
  have diff_small: "\<bar>c * blockSize - (len + 2)\<bar> < 2 ^ 53"
    using c_up c_lo ble by simp
  have diff: "jsSub (Fin (of_int (c * blockSize))) (Fin (of_int (len + 2)))
              = Fin (of_int (c * blockSize - (len + 2)))"
    using diff_small by (rule jsSub_int)
  show ?thesis
    unfolding getPadSize_def sum quot
    by (simp only: jsCeil.simps c_def [symmetric] prod diff)
qed

section \<open>Facts about the steps\<close>

text \<open>
  What each step does to the two variables: none but steps 1 and 3 changes
  \<open>packetLength\<close>, and every step appends the list named after it, so that a run is the
  concatenation \<open>calculatePacket_segments\<close>.
\<close>

lemmas steps_defs =
  calculatePacket_def afterGre_def initial_def determineIpHeaders_def addNatTraversal_def
  paddingFromGre_def addAuthenticationHeader_def addEsp_def espGmacBranch_def
  setInnerdata_def push_def ipHeaderSize_def IPV4_HDR_SIZE_def IPV6_HDR_SIZE_def
  espPad_def espIV_def espICV_def

lemmas form_defs =
  defaultFormValues_def aesGmacFormValues_def inteOnlyFormValues_def gcmGmacAhFormValues_def
  nanFormValues_def bigFormValues_def

lemmas rule_defs =
  rule1_def rule2_def rule3_def rule4_def rule5_def rule6_def headerSize_def inInterval_def

lemma packetLength_push [simp]: "packetLength (push ds s) = packetLength s"
  by (simp add: push_def)

lemma packetDetails_push [simp]: "packetDetails (push ds s) = packetDetails s @ ds"
  by (simp add: push_def)

lemma packetLength_setInnerdata [simp]: "packetLength (setInnerdata form s) = packetLength s"
  by (simp add: setInnerdata_def Let_def)

lemma packetDetails_setInnerdata:
  "packetDetails (setInnerdata form s) = packetDetails s @ innerData form"
  by (simp add: innerData_def setInnerdata_def initial_def Let_def)

lemma innerData_eq:
  "innerData form =
     (if gre (tunnelSetting form) then
        (if tunnelMode (transform form) = Tunnel then
           [\<lparr>text = ''New '' @ ipProtocolText (ipProtocol (transport form)) @ '' Header for GRE'',
             bytes = ipHeaderSize form, group = None\<rparr>]
         else [])
        @ [if greKey (tunnelSetting form) then
             \<lparr>text = ''GRE Header + Tunnel Key'', bytes = Fin 8, group = None\<rparr>
           else \<lparr>text = ''GRE Header'', bytes = Fin 4, group = None\<rparr>]
      else [])
     @ (if gre (tunnelSetting form) \<or> tunnelMode (transform form) = Tunnel then
          [\<lparr>text = ''Original '' @ ipProtocolText (ipProtocol (transport form)) @ '' Header'',
            bytes = ipHeaderSize form, group = None\<rparr>]
        else [])
     @ [\<lparr>text = ''Original '' @ ipProtocolText (ipProtocol (transport form)) @ '' Payload'',
         bytes = jsSub (packetSize form) (ipHeaderSize form), group = None\<rparr>]"
  by (simp add: innerData_def setInnerdata_def initial_def Let_def)

lemma packetLength_afterGre: "packetLength (afterGre form) = paddingBase form"
  by (simp add: afterGre_def paddingFromGre_def addNatTraversal_def determineIpHeaders_def
      initial_def paddingBase_def Let_def)

lemma packetDetails_afterGre:
  "packetDetails (afterGre form) =
     [\<lparr>text = (if tunnelMode (transform form) = Tunnel \<or> gre (tunnelSetting form) then
                 ''New '' @ ipProtocolText (ipProtocol (transport form)) @ '' Header for IPsec''
               else ''Original '' @ ipProtocolText (ipProtocol (transport form)) @ '' Header''),
       bytes = ipHeaderSize form, group = None\<rparr>]
     @ (if natTraver (transport form) then
          [\<lparr>text = ''UDP Header (NAT-T)'', bytes = Fin 8, group = None\<rparr>]
        else [])"
  by (simp add: afterGre_def paddingFromGre_def addNatTraversal_def determineIpHeaders_def
      initial_def Let_def)

lemma packetLength_addAuthenticationHeader [simp]:
  "packetLength (addAuthenticationHeader form s) = packetLength s"
  by (simp add: addAuthenticationHeader_def Let_def)

lemma packetDetails_addAuthenticationHeader:
  "packetDetails (addAuthenticationHeader form s) = packetDetails s @ ahSegments form"
  by (cases "ahInte (transform form)")
     (simp_all add: addAuthenticationHeader_def ahSegments_def Let_def
        packetDetails_setInnerdata)

lemma packetLength_espEncrSwitch [simp]:
  "packetLength (espEncrSwitch e form s) = packetLength s"
  by (cases e) (simp_all add: Let_def)

lemma packetDetails_espEncrSwitch:
  "packetDetails (espEncrSwitch (espEncr (transform form)) form s)
   = packetDetails s @ encrSegments form (packetLength s)"
  by (cases "espEncr (transform form)")
     (simp_all add: encrSegments_def Let_def packetDetails_setInnerdata)

lemma packetLength_espGmacBranch [simp]:
  "packetLength (espGmacBranch form s) = packetLength s"
  by (simp add: espGmacBranch_def Let_def)

lemma packetDetails_espGmacBranch:
  "packetDetails (espGmacBranch form s) = packetDetails s @ gmacSegments form (packetLength s)"
  by (simp add: espGmacBranch_def gmacSegments_def Let_def packetDetails_setInnerdata)

lemma packetDetails_espInteSwitch:
  "packetDetails (espInteSwitch i s)
   = packetDetails s @ (case i of
          ESP_MD5_HMAC \<Rightarrow> [espICV (Fin 12)]
        | ESP_SHA_HMAC \<Rightarrow> [espICV (Fin 12)]
        | ESP_SHA_256 \<Rightarrow> [espICV (Fin 16)]
        | ESP_SHA_384 \<Rightarrow> [espICV (Fin 24)]
        | ESP_SHA_512 \<Rightarrow> [espICV (Fin 32)]
        | Inte_None \<Rightarrow> []
        | ESP_GMAC_128_192_256 \<Rightarrow> [])"
  by (cases i) simp_all

lemma packetDetails_addEsp:
  "packetDetails (addEsp form s) = packetDetails s @ espSegments form (packetLength s)"
  by (simp add: addEsp_def espSegments_def icvSegments_def Let_def
      packetDetails_espEncrSwitch packetDetails_espGmacBranch packetDetails_espInteSwitch)

lemma calculatePacket_segments:
  "calculatePacket form
   = packetDetails (afterGre form) @ ahSegments form @ espSegments form (paddingBase form)"
  by (simp add: calculatePacket_def packetDetails_addEsp packetDetails_addAuthenticationHeader
      packetLength_afterGre)

lemma emitted_setInnerdata: "emitted (setInnerdata form) s = innerData form"
  by (simp add: emitted_def packetDetails_setInnerdata)

lemma emitted_addAuthenticationHeader:
  "emitted (addAuthenticationHeader form) s = ahSegments form"
  by (simp add: emitted_def packetDetails_addAuthenticationHeader)

lemma emitted_addEsp: "emitted (addEsp form) s = espSegments form (packetLength s)"
  by (simp add: emitted_def packetDetails_addEsp)

section \<open>The labels of the segments\<close>

lemma text_innerData:
  "d \<in> set (innerData form) \<Longrightarrow>
     text d \<in> {''New IPv4 Header for GRE'', ''New IPv6 Header for GRE'',
               ''GRE Header + Tunnel Key'', ''GRE Header'',
               ''Original IPv4 Header'', ''Original IPv6 Header'',
               ''Original IPv4 Payload'', ''Original IPv6 Payload''}"
  by (cases "ipProtocol (transport form)") (auto simp: innerData_eq split: if_splits)

lemma text_afterGre:
  "d \<in> set (packetDetails (afterGre form)) \<Longrightarrow>
     text d \<in> {''New IPv4 Header for IPsec'', ''New IPv6 Header for IPsec'',
               ''Original IPv4 Header'', ''Original IPv6 Header'', ''UDP Header (NAT-T)''}"
  by (cases "ipProtocol (transport form)") (auto simp: packetDetails_afterGre split: if_splits)

lemma filter_empty_text:
  assumes "\<And>d. d \<in> set xs \<Longrightarrow> text d \<in> T" and "t \<notin> T"
  shows "filter (\<lambda>d. text d = t) xs = []"
  using assms by (auto simp: filter_empty_conv)

lemma pad_innerData: "filter (\<lambda>d. text d = ''ESP Pad'') (innerData form) = []"
  by (rule filter_empty_text [OF text_innerData]) simp_all

lemma pad_afterGre: "filter (\<lambda>d. text d = ''ESP Pad'') (packetDetails (afterGre form)) = []"
  by (rule filter_empty_text [OF text_afterGre]) simp_all

lemma pad_ahSegments: "filter (\<lambda>d. text d = ''ESP Pad'') (ahSegments form) = []"
  by (simp add: ahSegments_def pad_innerData)

lemma pad_encrSegments:
  "filter (\<lambda>d. text d = ''ESP Pad'') (encrSegments form len)
   = (case espEncr (transform form) of
        Encr_None \<Rightarrow> []
      | ESP_DES_3DES \<Rightarrow> [espPad len (Fin 8)]
      | ESP_AES_128_192_256 \<Rightarrow> [espPad len (Fin 16)]
      | ESP_GCM_128_192_256 \<Rightarrow> [espPad len (Fin 4)]
      | ESP_NULL \<Rightarrow> [espPad len (Fin 4)])"
  by (cases "espEncr (transform form)")
     (simp_all add: encrSegments_def pad_innerData espIV_def espPad_def)

lemma pad_gmacSegments:
  "filter (\<lambda>d. text d = ''ESP Pad'') (gmacSegments form len)
   = (if espInte (transform form) = ESP_GMAC_128_192_256 then [espPad len (Fin 4)] else [])"
  by (simp add: gmacSegments_def pad_innerData espIV_def espPad_def)

lemma pad_icvSegments: "filter (\<lambda>d. text d = ''ESP Pad'') (icvSegments form) = []"
  by (cases "espInte (transform form)") (simp_all add: icvSegments_def espICV_def)

lemma pad_espSegments:
  "filter (\<lambda>d. text d = ''ESP Pad'') (espSegments form len)
   = (case espEncr (transform form) of
        Encr_None \<Rightarrow> []
      | ESP_DES_3DES \<Rightarrow> [espPad len (Fin 8)]
      | ESP_AES_128_192_256 \<Rightarrow> [espPad len (Fin 16)]
      | ESP_GCM_128_192_256 \<Rightarrow> [espPad len (Fin 4)]
      | ESP_NULL \<Rightarrow> [espPad len (Fin 4)])
     @ (if espInte (transform form) = ESP_GMAC_128_192_256 then [espPad len (Fin 4)] else [])"
  by (cases "espEncr (transform form)")
     (simp_all add: espSegments_def pad_encrSegments pad_gmacSegments pad_icvSegments)

lemma pad_calculatePacket:
  "filter (\<lambda>d. text d = ''ESP Pad'') (calculatePacket form)
   = (case espEncr (transform form) of
        Encr_None \<Rightarrow> []
      | ESP_DES_3DES \<Rightarrow> [espPad (paddingBase form) (Fin 8)]
      | ESP_AES_128_192_256 \<Rightarrow> [espPad (paddingBase form) (Fin 16)]
      | ESP_GCM_128_192_256 \<Rightarrow> [espPad (paddingBase form) (Fin 4)]
      | ESP_NULL \<Rightarrow> [espPad (paddingBase form) (Fin 4)])
     @ (if espInte (transform form) = ESP_GMAC_128_192_256
        then [espPad (paddingBase form) (Fin 4)] else [])"
  by (simp add: calculatePacket_segments pad_afterGre pad_ahSegments pad_espSegments)

lemma icv_innerData: "filter (\<lambda>d. text d = ''ESP ICV'') (innerData form) = []"
  by (rule filter_empty_text [OF text_innerData]) simp_all

lemma icv_afterGre: "filter (\<lambda>d. text d = ''ESP ICV'') (packetDetails (afterGre form)) = []"
  by (rule filter_empty_text [OF text_afterGre]) simp_all

lemma icv_ahSegments: "filter (\<lambda>d. text d = ''ESP ICV'') (ahSegments form) = []"
  by (simp add: ahSegments_def icv_innerData)

lemma icv_encrSegments: "filter (\<lambda>d. text d = ''ESP ICV'') (encrSegments form len) = []"
  by (cases "espEncr (transform form)")
     (simp_all add: encrSegments_def icv_innerData espIV_def espPad_def)

lemma icv_gmacSegments: "filter (\<lambda>d. text d = ''ESP ICV'') (gmacSegments form len) = []"
  by (simp add: gmacSegments_def icv_innerData espIV_def espPad_def)

lemma icv_icvSegments: "filter (\<lambda>d. text d = ''ESP ICV'') (icvSegments form) = icvSegments form"
  by (cases "espInte (transform form)") (simp_all add: icvSegments_def espICV_def)

section \<open>The padding base in exact arithmetic\<close>

text \<open>
  For a packet size that is an integer of magnitude at most \<open>2 ^ 52\<close>, no operation of steps
  1 to 3 or of the inner-data helper rounds: the header size and the payload size are finite,
  and the padding base is the exact sum of the sizes the helper emits.
\<close>

lemma ipHeaderSize_cases:
  "ipHeaderSize form = Fin (of_int 20) \<or> ipHeaderSize form = Fin (of_int 40)"
  by (simp add: ipHeaderSize_def IPV4_HDR_SIZE_def IPV6_HDR_SIZE_def)

lemma paddingBase_exact:
  assumes "packetSize form = Fin (of_int m)" and "\<bar>m\<bar> \<le> 2 ^ 52"
    and "ipHeaderSize form = Fin (of_int h)" and "h = 20 \<or> h = 40"
  shows "paddingBase form =
     Fin (of_int
       ((if tunnelMode (transform form) = Tunnel then
           m + (if gre (tunnelSetting form) then h else 0)
         else if gre (tunnelSetting form) then m else m - h)
        + (if gre (tunnelSetting form) then
             4 + (if greKey (tunnelSetting form) then 4 else 0)
           else 0)))"
proof -
  have pow: "(2::int) ^ 52 = 4503599627370496" "(2::int) ^ 53 = 9007199254740992"
    by simp_all
  have a0: "jsAdd (Fin 0) (Fin (of_int m)) = Fin (of_int m)"
    using jsAdd_int [of 0 m] assms(2) pow by simp
  have ah: "jsAdd (Fin (of_int m)) (Fin (of_int h)) = Fin (of_int (m + h))"
    using assms(2,4) pow by (intro jsAdd_int) auto
  have sh: "jsSub (Fin (of_int m)) (Fin (of_int h)) = Fin (of_int (m - h))"
    using assms(2,4) pow by (intro jsSub_int) auto
  have a4: "jsAdd (Fin (of_int k)) (Fin 4) = Fin (of_int (k + 4))"
    if "\<bar>k\<bar> \<le> 2 ^ 52 + 44" for k
    using jsAdd_int [of k 4] that pow by simp
  have k1: "\<bar>m\<bar> \<le> 2 ^ 52 + 44" "\<bar>m + h\<bar> \<le> 2 ^ 52 + 44"
    "\<bar>m + 4\<bar> \<le> 2 ^ 52 + 44" "\<bar>m + h + 4\<bar> \<le> 2 ^ 52 + 44"
    using assms(2,4) pow by auto
  note exact = a0 ah sh a4 [OF k1(1)] a4 [OF k1(2)] a4 [OF k1(3)] a4 [OF k1(4)]
  show ?thesis
    unfolding paddingBase_def Let_def assms(1,3)
    by (cases "tunnelMode (transform form) = Tunnel"; cases "gre (tunnelSetting form)";
        cases "greKey (tunnelSetting form)")
       (simp_all only: exact if_True if_False simp_thms, simp_all)
qed

lemma innerData_exact:
  assumes "packetSize form = Fin (of_int m)" and "\<bar>m\<bar> \<le> 2 ^ 52"
    and "ipHeaderSize form = Fin (of_int h)" and "h = 20 \<or> h = 40"
  shows "list_all isFin (map bytes (innerData form))"
    and "sum_list (map finValue (map bytes (innerData form))) =
       of_int
         ((if tunnelMode (transform form) = Tunnel then
             m + (if gre (tunnelSetting form) then h else 0)
           else if gre (tunnelSetting form) then m else m - h)
          + (if gre (tunnelSetting form) then
               4 + (if greKey (tunnelSetting form) then 4 else 0)
             else 0))"
proof -
  have pow: "(2::int) ^ 52 = 4503599627370496" "(2::int) ^ 53 = 9007199254740992"
    by simp_all
  have sh: "jsSub (Fin (of_int m)) (Fin (of_int h)) = Fin (of_int (m - h))"
    using assms(2,4) pow by (intro jsSub_int) auto
  show "list_all isFin (map bytes (innerData form))"
    by (simp add: innerData_eq assms(1,3) sh isFin_def)
  show "sum_list (map finValue (map bytes (innerData form))) =
       of_int
         ((if tunnelMode (transform form) = Tunnel then
             m + (if gre (tunnelSetting form) then h else 0)
           else if gre (tunnelSetting form) then m else m - h)
          + (if gre (tunnelSetting form) then
               4 + (if greKey (tunnelSetting form) then 4 else 0)
             else 0))"
    by (simp add: innerData_eq assms(1,3) sh finValue_def)
qed

section \<open>The validator and its rules\<close>

text \<open>
  The code's test of the packet size is rule 1 for every packet size but \<open>NaN\<close>, for which
  both comparisons are false; the other five tests are the rules 2 to 6.
\<close>

lemma showInt_28: "showInt 28 = ''28''"
  by (simp add: showInt_def showNat.simps [of 28] showNat.simps [of 2] digitChar_def)

lemma showInt_48: "showInt 48 = ''48''"
  by (simp add: showInt_def showNat.simps [of 48] showNat.simps [of 4] digitChar_def)

lemma showInt_64000: "showInt 64000 = ''64000''"
  by (simp add: showInt_def showNat.simps [of 64000] showNat.simps [of 6400]
      showNat.simps [of 640] showNat.simps [of 64] showNat.simps [of 6] digitChar_def)

lemma size_test:
  "jsLt p (Fin lo) \<or> jsGt p (Fin hi) \<longleftrightarrow> p \<noteq> NaN \<and> \<not> inInterval lo hi p"
  by (cases p) (auto simp: jsGt_def inInterval_def)

lemma rule1_code:
  "(jsLt (packetSize form)
      (jsAdd (if ipProtocol (transport form) = IPv4 then IPV4_HDR_SIZE else IPV6_HDR_SIZE)
         (Fin 8))
    \<or> jsGt (packetSize form) (Fin 64000))
   \<longleftrightarrow> packetSize form \<noteq> NaN \<and> rule1 form"
  by (cases "ipProtocol (transport form)")
     (simp_all add: rule1_def headerSize_def IPV4_HDR_SIZE_def IPV6_HDR_SIZE_def size_test)

lemma rule3_code:
  "rule3 form \<longleftrightarrow>
     espInte (transform form) \<notin> set [Inte_None, ESP_GMAC_128_192_256]
     \<and> espEncr (transform form) = Encr_None"
  by (auto simp: rule3_def)

lemma rule5_code:
  "rule5 form \<longleftrightarrow>
     espEncr (transform form) \<noteq> Encr_None
     \<and> espInte (transform form) = ESP_GMAC_128_192_256"
  by (auto simp: rule5_def)

lemma packetSizeMessage_code:
  "''Please enter a valid packet size between ''
     @ showNumber
         (jsAdd (if ipProtocol (transport form) = IPv4 then IPV4_HDR_SIZE else IPV6_HDR_SIZE)
            (Fin 8))
     @ '' and '' @ showNumber (Fin 64000)
   = packetSizeMessage form"
  by (cases "ipProtocol (transport form)")
     (simp_all add: packetSizeMessage_def headerSize_def IPV4_HDR_SIZE_def IPV6_HDR_SIZE_def
        showNumber_def)

lemma validateForm_rules:
  "validateForm form =
     (if packetSize form \<noteq> NaN \<and> rule1 form then packetSizeMessage form
      else if rule2 form then ''Packet must use an encryption/authentication algorithm.''
      else if rule3 form then
        ''ESP integrity check can only be selected with an ESP encryption algorithm''
      else if rule4 form then
        ''ESP-GCM provides both data confidentiality and integrity protection. Do not select a separate authentication algorithm.''
      else if rule5 form then
        ''ESP-GMAC is an authentication-only algorithm and can not be selected with an encryption algorithm.''
      else if rule6 form then ''AH algorithms can not be selected with ESP-GMAC.''
      else '''')"
  by (simp only: validateForm_def Let_def rule1_code packetSizeMessage_code rule2_def
      rule3_code rule4_def rule5_code rule6_def)

lemma packetSizeMessage_nonempty: "packetSizeMessage form \<noteq> ''''"
  by (simp add: packetSizeMessage_def)

lemma packetSizeMessage_IPv4:
  "ipProtocol (transport form) = IPv4 \<Longrightarrow>
     packetSizeMessage form = ''Please enter a valid packet size between 28 and 64000''"
  by (simp add: packetSizeMessage_def headerSize_def showInt_28 showInt_64000)

lemma firstViolation_eq:
  "firstViolation form =
     (if rule1 form then Some (packetSizeMessage form)
      else if rule2 form then Some ''Packet must use an encryption/authentication algorithm.''
      else if rule3 form then
        Some ''ESP integrity check can only be selected with an ESP encryption algorithm''
      else if rule4 form then
        Some ''ESP-GCM provides both data confidentiality and integrity protection. Do not select a separate authentication algorithm.''
      else if rule5 form then
        Some ''ESP-GMAC is an authentication-only algorithm and can not be selected with an encryption algorithm.''
      else if rule6 form then Some ''AH algorithms can not be selected with ESP-GMAC.''
      else None)"
  by (simp only: firstViolation_def rules_def find.simps fst_conv snd_conv option.map
      if_distrib [of "map_option _"] cong: if_cong)

text \<open>For every packet size but \<open>NaN\<close> the validator is the first violated rule.\<close>

lemma validateForm_number:
  assumes "packetSize form \<noteq> NaN"
  shows "validateForm form = (case firstViolation form of None \<Rightarrow> '''' | Some msg \<Rightarrow> msg)"
  using assms by (simp add: validateForm_rules firstViolation_eq)

lemma validateForm_number_empty:
  assumes "packetSize form \<noteq> NaN"
  shows "validateForm form = '''' \<longleftrightarrow>
     \<not> rule1 form \<and> \<not> rule2 form \<and> \<not> rule3 form \<and> \<not> rule4 form \<and> \<not> rule5 form
     \<and> \<not> rule6 form"
  using assms by (simp add: validateForm_rules packetSizeMessage_nonempty)

text \<open>With the packet size \<open>NaN\<close> the validator accepts the default transform.\<close>

lemma validateForm_nan: "validateForm nanFormValues = ''''"
  by (simp add: validateForm_rules rule_defs form_defs)

lemma calculatePacket_nan:
  "calculatePacket nanFormValues
   = [\<lparr>text = ''New IPv4 Header for IPsec'', bytes = Fin 20, group = None\<rparr>,
      \<lparr>text = ''SPI'', bytes = Fin 4, group = Some ''ESP Header''\<rparr>,
      \<lparr>text = ''Sequence'', bytes = Fin 4, group = Some ''ESP Header''\<rparr>,
      \<lparr>text = ''ESP IV'', bytes = Fin 16, group = None\<rparr>,
      \<lparr>text = ''Original IPv4 Header'', bytes = Fin 20, group = None\<rparr>,
      \<lparr>text = ''Original IPv4 Payload'', bytes = NaN, group = None\<rparr>,
      \<lparr>text = ''ESP Pad'', bytes = NaN, group = Some ''ESP Trailer''\<rparr>,
      \<lparr>text = ''Pad Length'', bytes = Fin 1, group = Some ''ESP Trailer''\<rparr>,
      \<lparr>text = ''Next Header'', bytes = Fin 1, group = Some ''ESP Trailer''\<rparr>,
      \<lparr>text = ''ESP ICV'', bytes = Fin 12, group = Some ''ESP Trailer''\<rparr>]"
  by (simp add: form_defs steps_defs getPadSize_def jsSub_def)

section \<open>Where the original payload is emitted\<close>

lemma payload_innerData:
  "filter (\<lambda>d. text d = payloadText form) (innerData form)
   = [\<lparr>text = payloadText form, bytes = jsSub (packetSize form) (ipHeaderSize form),
       group = None\<rparr>]"
  by (cases "ipProtocol (transport form)") (simp_all add: innerData_eq payloadText_def)

lemma payload_afterGre:
  "filter (\<lambda>d. text d = payloadText form) (packetDetails (afterGre form)) = []"
  by (cases "ipProtocol (transport form)") (simp_all add: packetDetails_afterGre payloadText_def)

lemma payload_ahSegments:
  "(\<exists>d \<in> set (ahSegments form). text d = payloadText form) \<longleftrightarrow>
     ahInte (transform form) \<noteq> Ah_None \<and> espEncr (transform form) = Encr_None
     \<and> espInte (transform form) = Inte_None"
proof -
  have inner: "\<exists>d \<in> set (innerData form). text d = payloadText form"
    by (simp add: innerData_eq payloadText_def)
  have fixed: "payloadText form \<notin> {''Next Header'', ''Payload'', ''Reserved'', ''SPI'',
      ''Sequence'', ''AH Digest''}"
    by (cases "ipProtocol (transport form)") (simp_all add: payloadText_def)
  show ?thesis
  proof (cases "ahInte (transform form) \<noteq> Ah_None")
    case False
    then show ?thesis by (simp add: ahSegments_def)
  next
    case True
    show ?thesis
    proof (cases "espEncr (transform form) = Encr_None \<and> espInte (transform form) = Inte_None")
      case True
      with \<open>ahInte (transform form) \<noteq> Ah_None\<close> inner show ?thesis
        by (simp add: ahSegments_def bex_Un)
    next
      case False
      with \<open>ahInte (transform form) \<noteq> Ah_None\<close> fixed show ?thesis
        by (simp add: ahSegments_def) metis
    qed
  qed
qed

lemma payload_espSegments_imp:
  assumes "d \<in> set (espSegments form len)" and "text d = payloadText form"
  shows "espEncr (transform form) \<noteq> Encr_None
       \<or> espInte (transform form) = ESP_GMAC_128_192_256"
proof (rule ccontr)
  assume "\<not> ?thesis"
  then have "espSegments form len = []"
    by (simp add: espSegments_def)
  with assms(1) show False by simp
qed

lemma payload_espSegments:
  assumes "espEncr (transform form) \<noteq> Encr_None
       \<or> espInte (transform form) = ESP_GMAC_128_192_256"
  shows "\<exists>d \<in> set (espSegments form len). text d = payloadText form"
proof -
  define d where
    "d = \<lparr>text = payloadText form, bytes = jsSub (packetSize form) (ipHeaderSize form),
          group = None\<rparr>"
  have inner: "d \<in> set (innerData form)"
    by (simp add: innerData_eq d_def payloadText_def)
  have dtxt: "text d = payloadText form"
    by (simp add: d_def)
  have "d \<in> set (encrSegments form len) \<or> d \<in> set (gmacSegments form len)"
  proof (cases "espEncr (transform form)")
    case Encr_None
    with assms have "espInte (transform form) = ESP_GMAC_128_192_256" by simp
    with inner show ?thesis by (simp add: gmacSegments_def)
  qed (simp_all add: encrSegments_def inner)
  then have "d \<in> set (espSegments form len)"
    using assms by (simp add: espSegments_def) blast
  with dtxt show ?thesis by blast
qed

text \<open>
  A label that no fixed segment carries is carried by the segments of the inner-data helper
  alone, once for each of its invocations.
\<close>

lemma filter_ahSegments:
  assumes "t \<notin> {''Next Header'', ''Payload'', ''Reserved'', ''SPI'', ''Sequence'',
      ''AH Digest''}"
  shows "filter (\<lambda>d. text d = t) (ahSegments form)
     = (if ahInte (transform form) \<noteq> Ah_None \<and> espEncr (transform form) = Encr_None
           \<and> espInte (transform form) = Inte_None
        then filter (\<lambda>d. text d = t) (innerData form) else [])"
  using assms by (auto simp: ahSegments_def)

lemma filter_espSegments:
  assumes "t \<notin> {''SPI'', ''Sequence'', ''ESP IV'', ''ESP Pad'', ''Pad Length'',
      ''Next Header'', ''ESP ICV''}"
  shows "filter (\<lambda>d. text d = t) (espSegments form len)
     = (if espEncr (transform form) \<noteq> Encr_None
        then filter (\<lambda>d. text d = t) (innerData form) else [])
       @ (if espInte (transform form) = ESP_GMAC_128_192_256
          then filter (\<lambda>d. text d = t) (innerData form) else [])"
proof -
  have icv: "filter (\<lambda>d. text d = t) (icvSegments form) = []"
    using assms
    by (cases "espInte (transform form)") (auto simp: icvSegments_def espICV_def)
  have encr: "filter (\<lambda>d. text d = t) (encrSegments form len)
     = (if espEncr (transform form) \<noteq> Encr_None
        then filter (\<lambda>d. text d = t) (innerData form) else [])"
    using assms
    by (cases "espEncr (transform form)") (auto simp: encrSegments_def espIV_def espPad_def)
  have gmac: "filter (\<lambda>d. text d = t) (gmacSegments form len)
     = (if espInte (transform form) = ESP_GMAC_128_192_256
        then filter (\<lambda>d. text d = t) (innerData form) else [])"
    using assms by (auto simp: gmacSegments_def espIV_def espPad_def)
  show ?thesis
    using assms by (auto simp: espSegments_def icv encr gmac)
qed

lemma filter_calculatePacket:
  assumes "t \<notin> {''Next Header'', ''Payload'', ''Reserved'', ''SPI'', ''Sequence'',
      ''AH Digest'', ''ESP IV'', ''ESP Pad'', ''Pad Length'', ''ESP ICV'',
      ''New IPv4 Header for IPsec'', ''New IPv6 Header for IPsec'',
      ''Original IPv4 Header'', ''Original IPv6 Header'', ''UDP Header (NAT-T)''}"
  shows "filter (\<lambda>d. text d = t) (calculatePacket form)
     = (if ahInte (transform form) \<noteq> Ah_None \<and> espEncr (transform form) = Encr_None
           \<and> espInte (transform form) = Inte_None
        then filter (\<lambda>d. text d = t) (innerData form) else [])
       @ (if espEncr (transform form) \<noteq> Encr_None
          then filter (\<lambda>d. text d = t) (innerData form) else [])
       @ (if espInte (transform form) = ESP_GMAC_128_192_256
          then filter (\<lambda>d. text d = t) (innerData form) else [])"
proof -
  have head: "filter (\<lambda>d. text d = t) (packetDetails (afterGre form)) = []"
    by (rule filter_empty_text [OF text_afterGre]) (use assms in auto)
  have ah: "t \<notin> {''Next Header'', ''Payload'', ''Reserved'', ''SPI'', ''Sequence'',
      ''AH Digest''}"
    using assms by auto
  have esp: "t \<notin> {''SPI'', ''Sequence'', ''ESP IV'', ''ESP Pad'', ''Pad Length'',
      ''Next Header'', ''ESP ICV''}"
    using assms by auto
  show ?thesis
    by (simp only: calculatePacket_segments filter_append head filter_ahSegments [OF ah]
        filter_espSegments [OF esp] append_Nil)
qed

section \<open>The GRE key\<close>

lemma withGreKey_fields [simp]:
  "packetSize (withGreKey k form) = packetSize form"
  "transform (withGreKey k form) = transform form"
  "transport (withGreKey k form) = transport form"
  "gre (tunnelSetting (withGreKey k form)) = gre (tunnelSetting form)"
  "greKey (tunnelSetting (withGreKey k form)) = k"
  "ipHeaderSize (withGreKey k form) = ipHeaderSize form"
  by (simp_all add: withGreKey_def ipHeaderSize_def)

lemma greKeyVariant_other:
  "text d \<noteq> ''GRE Header'' \<Longrightarrow> text d \<noteq> ''ESP Pad'' \<Longrightarrow> greKeyVariant len d d"
  by (simp add: greKeyVariant_def)

lemma greKeyVariant_same:
  assumes "\<And>d. d \<in> set xs \<Longrightarrow> text d \<in> T" and "''GRE Header'' \<notin> T" and "''ESP Pad'' \<notin> T"
  shows "list_all2 (greKeyVariant len) xs xs"
proof -
  have "greKeyVariant len d d" if "d \<in> set xs" for d
  proof (rule greKeyVariant_other)
    from assms(1) [OF that] assms(2) show "text d \<noteq> ''GRE Header''" by metis
    from assms(1) [OF that] assms(3) show "text d \<noteq> ''ESP Pad''" by metis
  qed
  then show ?thesis by (simp add: list_all2_same)
qed

lemma greKeyVariant_pad:
  "blockSize \<in> {Fin 4, Fin 8, Fin 16} \<Longrightarrow>
     greKeyVariant len (espPad len blockSize) (espPad (jsAdd len (Fin 4)) blockSize)"
  by (auto simp: greKeyVariant_def espPad_def)

lemma greKeyVariant_IV: "greKeyVariant len (espIV n) (espIV n)"
  by (simp add: greKeyVariant_def espIV_def)

lemma paddingBase_withGreKey:
  "gre (tunnelSetting form) \<Longrightarrow>
     paddingBase (withGreKey True form) = jsAdd (paddingBase (withGreKey False form)) (Fin 4)"
  by (simp add: paddingBase_def)

lemma afterGre_withGreKey:
  "packetDetails (afterGre (withGreKey k form)) = packetDetails (afterGre form)"
  by (simp add: packetDetails_afterGre)

lemma innerData_withGreKey:
  "list_all2 (greKeyVariant len) (innerData (withGreKey False form))
     (innerData (withGreKey True form))"
  by (cases "ipProtocol (transport form)")
     (simp_all add: innerData_eq greKeyVariant_def list_all2_appendI)

lemma ahSegments_withGreKey:
  "list_all2 (greKeyVariant len) (ahSegments (withGreKey False form))
     (ahSegments (withGreKey True form))"
  by (simp add: ahSegments_def greKeyVariant_def innerData_withGreKey list_all2_appendI)

lemma encrSegments_withGreKey:
  "list_all2 (greKeyVariant len) (encrSegments (withGreKey False form) len)
     (encrSegments (withGreKey True form) (jsAdd len (Fin 4)))"
  by (cases "espEncr (transform form)")
     (simp_all add: encrSegments_def greKeyVariant_IV greKeyVariant_pad innerData_withGreKey
        list_all2_appendI)

lemma gmacSegments_withGreKey:
  "list_all2 (greKeyVariant len) (gmacSegments (withGreKey False form) len)
     (gmacSegments (withGreKey True form) (jsAdd len (Fin 4)))"
  by (simp add: gmacSegments_def greKeyVariant_IV greKeyVariant_pad innerData_withGreKey
      list_all2_appendI)

lemma icvSegments_withGreKey:
  "icvSegments (withGreKey k form) = icvSegments form"
  by (simp add: icvSegments_def)

lemma text_icvSegments: "d \<in> set (icvSegments form) \<Longrightarrow> text d \<in> {''ESP ICV''}"
  by (cases "espInte (transform form)") (auto simp: icvSegments_def espICV_def split: if_splits)

lemma espSegments_withGreKey:
  "list_all2 (greKeyVariant len) (espSegments (withGreKey False form) len)
     (espSegments (withGreKey True form) (jsAdd len (Fin 4)))"
proof -
  have icv: "list_all2 (greKeyVariant len) (icvSegments form) (icvSegments form)"
    by (rule greKeyVariant_same [OF text_icvSegments]) simp_all
  show ?thesis
    by (simp add: espSegments_def greKeyVariant_def icvSegments_withGreKey icv
        encrSegments_withGreKey gmacSegments_withGreKey list_all2_appendI)
qed

lemma payloadText_not_fixed:
  "payloadText form \<notin> {''Next Header'', ''Payload'', ''Reserved'', ''SPI'', ''Sequence'',
      ''AH Digest'', ''ESP IV'', ''ESP Pad'', ''Pad Length'', ''ESP ICV'',
      ''New IPv4 Header for IPsec'', ''New IPv6 Header for IPsec'',
      ''Original IPv4 Header'', ''Original IPv6 Header'', ''UDP Header (NAT-T)''}"
  by (cases "ipProtocol (transport form)") (simp_all add: payloadText_def)

lemma greHeader_innerData:
  assumes "gre (tunnelSetting form)"
  shows "filter (\<lambda>d. text d = ''GRE Header'') (innerData (withGreKey False form))
         = [\<lparr>text = ''GRE Header'', bytes = Fin 4, group = None\<rparr>]"
    and "filter (\<lambda>d. text d = ''GRE Header + Tunnel Key'') (innerData (withGreKey True form))
         = [\<lparr>text = ''GRE Header + Tunnel Key'', bytes = Fin 8, group = None\<rparr>]"
  using assms
  by (cases "ipProtocol (transport form)"; simp add: innerData_eq)+

text \<open>
  With GRE enabled a run has one GRE header segment for each original payload segment, that
  is, for each invocation of the inner-data helper.
\<close>

lemma greHeader_count:
  assumes "gre (tunnelSetting form)"
  shows "length (filter (\<lambda>d. text d = ''GRE Header'') (calculatePacket (withGreKey False form)))
         = length (filter (\<lambda>d. text d = payloadText form)
                     (calculatePacket (withGreKey False form)))"
    and "length (filter (\<lambda>d. text d = ''GRE Header + Tunnel Key'')
                   (calculatePacket (withGreKey True form)))
         = length (filter (\<lambda>d. text d = payloadText form)
                     (calculatePacket (withGreKey True form)))"
proof -
  have p: "payloadText (withGreKey k form) = payloadText form" for k
    by (simp add: payloadText_def)
  have pay: "length (filter (\<lambda>d. text d = payloadText form) (innerData (withGreKey k form))) = 1"
    for k
    using payload_innerData [of "withGreKey k form"] by (simp add: p)
  have a: "filter (\<lambda>d. text d = payloadText form) (calculatePacket (withGreKey k form))
     = (if ahInte (transform form) \<noteq> Ah_None \<and> espEncr (transform form) = Encr_None
           \<and> espInte (transform form) = Inte_None
        then filter (\<lambda>d. text d = payloadText form) (innerData (withGreKey k form)) else [])
       @ (if espEncr (transform form) \<noteq> Encr_None
          then filter (\<lambda>d. text d = payloadText form) (innerData (withGreKey k form)) else [])
       @ (if espInte (transform form) = ESP_GMAC_128_192_256
          then filter (\<lambda>d. text d = payloadText form) (innerData (withGreKey k form))
          else [])" for k
    using filter_calculatePacket [OF payloadText_not_fixed, of form "withGreKey k form"]
    by simp
  show "length (filter (\<lambda>d. text d = ''GRE Header'') (calculatePacket (withGreKey False form)))
         = length (filter (\<lambda>d. text d = payloadText form)
                     (calculatePacket (withGreKey False form)))"
    by (simp add: a filter_calculatePacket greHeader_innerData(1) [OF assms] pay)
  show "length (filter (\<lambda>d. text d = ''GRE Header + Tunnel Key'')
                   (calculatePacket (withGreKey True form)))
         = length (filter (\<lambda>d. text d = payloadText form)
                     (calculatePacket (withGreKey True form)))"
    by (simp add: a filter_calculatePacket greHeader_innerData(2) [OF assms] pay)
qed

section \<open>Byte sizes of an accepted form with an integer packet size\<close>

text \<open>
  \<open>parseInt\<close> gives an integer, an infinity or \<open>NaN\<close>. The validator rejects the
  infinities, and for an accepted integer packet size every segment has a byte size of at
  least 0: \<open>NaN\<close> is the one packet size for which this fails.
\<close>

lemma jsGe_Fin: "jsGe (Fin q) (Fin 0) \<longleftrightarrow> 0 \<le> q"
  by (auto simp: jsGe_def)

lemma getPadSize_nonneg:
  assumes "\<bar>len\<bar> \<le> 2 ^ 52" and "blockSize \<in> {4, 8, 16}"
  shows "jsGe (getPadSize (Fin (of_int len)) (Fin (of_int blockSize))) (Fin 0)"
proof -
  define c where "c = \<lceil>of_int (len + 2) / of_int blockSize :: real\<rceil>"
  have bpos: "0 < blockSize" using assms(2) by auto
  have "of_int (len + 2) / of_int blockSize \<le> (of_int c :: real)"
    unfolding c_def by linarith
  then have "(of_int (len + 2) :: real) \<le> of_int c * of_int blockSize"
    using bpos by (simp add: field_simps)
  then have "(of_int (len + 2) :: real) \<le> of_int (c * blockSize)" by simp
  then have "len + 2 \<le> c * blockSize" by (simp only: of_int_le_iff)
  then have "0 \<le> c * blockSize - (len + 2)" by simp
  then have "(0::real) \<le> of_int (c * blockSize - (len + 2))"
    by (simp only: of_int_0_le_iff)
  then show ?thesis
    unfolding getPadSize_exact [OF assms] c_def [symmetric] by (simp only: jsGe_Fin)
qed

lemma accepted_size:
  assumes "validateForm form = ''''" and "packetSize form = Fin (of_int m)"
    and "ipHeaderSize form = Fin (of_int h)" and "h = 20 \<or> h = 40"
  shows "h + 8 \<le> m" and "m \<le> 64000"
proof -
  have "packetSize form \<noteq> NaN" using assms(2) by simp
  with assms(1) have "\<not> rule1 form"
    by (simp add: validateForm_number_empty)
  then have "of_int h + 8 \<le> (of_int m :: real) \<and> (of_int m :: real) \<le> 64000"
    using assms(2,3,4)
    by (cases "ipProtocol (transport form)")
       (auto simp: rule1_def inInterval_def headerSize_def ipHeaderSize_def IPV4_HDR_SIZE_def
          IPV6_HDR_SIZE_def)
  then have "(of_int (h + 8) :: real) \<le> of_int m" and "(of_int m :: real) \<le> of_int 64000"
    by simp_all
  then show "h + 8 \<le> m" and "m \<le> 64000"
    by (simp_all only: of_int_le_iff)
qed

lemma accepted_integer_bytes_nonneg:
  assumes "validateForm form = ''''" and "packetSize form = Fin (of_int m)"
  shows "list_all (\<lambda>d. jsGe (bytes d) (Fin 0)) (calculatePacket form)"
proof -
  from ipHeaderSize_cases [of form]
  obtain h where h: "ipHeaderSize form = Fin (of_int h)" "h = 20 \<or> h = 40"
    by auto
  note size = accepted_size [OF assms h]
  have pow: "(2::int) ^ 52 = 4503599627370496" "(2::int) ^ 53 = 9007199254740992"
    by simp_all
  have m: "\<bar>m\<bar> \<le> 2 ^ 52" using size h(2) pow by auto
  have hdr: "jsGe (ipHeaderSize form) (Fin 0)"
    using h by (auto simp: jsGe_Fin)
  have payload: "jsGe (jsSub (packetSize form) (ipHeaderSize form)) (Fin 0)"
  proof -
    have "jsSub (Fin (of_int m)) (Fin (of_int h)) = Fin (of_int (m - h))"
      using size h(2) pow by (intro jsSub_int) auto
    then show ?thesis
      using size by (simp add: assms(2) h(1) jsGe_Fin)
  qed
  obtain len where len: "paddingBase form = Fin (of_int len)" "\<bar>len\<bar> \<le> 2 ^ 52"
  proof
    show "paddingBase form =
     Fin (of_int
       ((if tunnelMode (transform form) = Tunnel then
           m + (if gre (tunnelSetting form) then h else 0)
         else if gre (tunnelSetting form) then m else m - h)
        + (if gre (tunnelSetting form) then
             4 + (if greKey (tunnelSetting form) then 4 else 0)
           else 0)))"
      by (rule paddingBase_exact [OF assms(2) m h])
    show "\<bar>(if tunnelMode (transform form) = Tunnel then
           m + (if gre (tunnelSetting form) then h else 0)
         else if gre (tunnelSetting form) then m else m - h)
        + (if gre (tunnelSetting form) then
             4 + (if greKey (tunnelSetting form) then 4 else 0)
           else 0)\<bar> \<le> 2 ^ 52"
      using size h(2) pow by auto
  qed
  have pad: "jsGe (bytes (espPad (paddingBase form) (Fin b))) (Fin 0)"
    if "b = 4 \<or> b = 8 \<or> b = 16" for b :: real
  proof -
    from that consider "b = of_int 4" | "b = of_int 8" | "b = of_int 16" by auto
    then show ?thesis
    proof cases
      case 1
      with getPadSize_nonneg [OF len(2), of 4] show ?thesis
        by (simp add: espPad_def len(1))
    next
      case 2
      with getPadSize_nonneg [OF len(2), of 8] show ?thesis
        by (simp add: espPad_def len(1))
    next
      case 3
      with getPadSize_nonneg [OF len(2), of 16] show ?thesis
        by (simp add: espPad_def len(1))
    qed
  qed
  have inner: "list_all (\<lambda>d. jsGe (bytes d) (Fin 0)) (innerData form)"
    using hdr payload by (simp add: innerData_eq jsGe_Fin)
  have head: "list_all (\<lambda>d. jsGe (bytes d) (Fin 0)) (packetDetails (afterGre form))"
    using hdr by (simp add: packetDetails_afterGre jsGe_Fin)
  have ah: "list_all (\<lambda>d. jsGe (bytes d) (Fin 0)) (ahSegments form)"
    using inner by (simp add: ahSegments_def jsGe_Fin)
  have encr: "list_all (\<lambda>d. jsGe (bytes d) (Fin 0)) (encrSegments form (paddingBase form))"
    using inner pad [of 4] pad [of 8] pad [of 16]
    by (cases "espEncr (transform form)") (simp_all add: encrSegments_def espIV_def jsGe_Fin)
  have gmac: "list_all (\<lambda>d. jsGe (bytes d) (Fin 0)) (gmacSegments form (paddingBase form))"
    using inner pad [of 4] by (simp add: gmacSegments_def espIV_def jsGe_Fin)
  have icv: "list_all (\<lambda>d. jsGe (bytes d) (Fin 0)) (icvSegments form)"
    by (cases "espInte (transform form)") (simp_all add: icvSegments_def espICV_def jsGe_Fin)
  have esp: "list_all (\<lambda>d. jsGe (bytes d) (Fin 0)) (espSegments form (paddingBase form))"
    using encr gmac icv by (simp add: espSegments_def jsGe_Fin)
  from head ah esp show ?thesis
    by (simp add: calculatePacket_segments)
qed

section \<open>The claims\<close>

lemma getPadSize_100_16: "getPadSize (Fin 100) (Fin 16) = Fin 10"
  using getPadSize_exact [of 100 16] by simp


lemma getPadSize_124_16: "getPadSize (Fin 124) (Fin 16) = Fin 2"
  using getPadSize_exact [of 124 16] by simp

lemma getPadSize_128_16: "getPadSize (Fin 128) (Fin 16) = Fin 14"
  using getPadSize_exact [of 128 16] by simp


subsection \<open>C1\<close>

text \<open>
  C1. For packet size 100, ESP-AES-128/192/256, ESP-SHA-HMAC, no AH, tunnel mode, IPv4, no
  NAT traversal and no GRE (whatever the GRE key switch says), the composer returns exactly
  the ten segments below, in this order: the new IPv4 header for IPsec (20), SPI and Sequence
  of the ESP header (4 each), the ESP IV (16), the original IPv4 header (20), the original
  payload (80), the ESP pad of the running length 100 for block size 16, which is 10, then
  Pad Length (1), Next Header (1) and the ESP ICV (12) of the ESP trailer. There is no AH
  segment.
\<close>

theorem calculatePacket_default:
  "calculatePacket
     \<lparr>packetSize = Fin 100,
      transform = \<lparr>ahInte = Ah_None, espEncr = ESP_AES_128_192_256,
                   espInte = ESP_SHA_HMAC, tunnelMode = Tunnel\<rparr>,
      transport = \<lparr>ipProtocol = IPv4, natTraver = False\<rparr>,
      tunnelSetting = \<lparr>gre = False, greKey = k\<rparr>\<rparr>
   = [\<lparr>text = ''New IPv4 Header for IPsec'', bytes = Fin 20, group = None\<rparr>,
      \<lparr>text = ''SPI'', bytes = Fin 4, group = Some ''ESP Header''\<rparr>,
      \<lparr>text = ''Sequence'', bytes = Fin 4, group = Some ''ESP Header''\<rparr>,
      \<lparr>text = ''ESP IV'', bytes = Fin 16, group = None\<rparr>,
      \<lparr>text = ''Original IPv4 Header'', bytes = Fin 20, group = None\<rparr>,
      \<lparr>text = ''Original IPv4 Payload'', bytes = Fin 80, group = None\<rparr>,
      \<lparr>text = ''ESP Pad'', bytes = Fin 10, group = Some ''ESP Trailer''\<rparr>,
      \<lparr>text = ''Pad Length'', bytes = Fin 1, group = Some ''ESP Trailer''\<rparr>,
      \<lparr>text = ''Next Header'', bytes = Fin 1, group = Some ''ESP Trailer''\<rparr>,
      \<lparr>text = ''ESP ICV'', bytes = Fin 12, group = Some ''ESP Trailer''\<rparr>]
    \<and> getPadSize (Fin 100) (Fin 16) = Fin 10"
  by (simp add: steps_defs getPadSize_100_16 jsSub_def)

text \<open>The same at \<open>defaultFormValues\<close>, where the GRE key switch is off.\<close>

theorem calculatePacket_default_witness:
  "calculatePacket defaultFormValues
   = [\<lparr>text = ''New IPv4 Header for IPsec'', bytes = Fin 20, group = None\<rparr>,
      \<lparr>text = ''SPI'', bytes = Fin 4, group = Some ''ESP Header''\<rparr>,
      \<lparr>text = ''Sequence'', bytes = Fin 4, group = Some ''ESP Header''\<rparr>,
      \<lparr>text = ''ESP IV'', bytes = Fin 16, group = None\<rparr>,
      \<lparr>text = ''Original IPv4 Header'', bytes = Fin 20, group = None\<rparr>,
      \<lparr>text = ''Original IPv4 Payload'', bytes = Fin 80, group = None\<rparr>,
      \<lparr>text = ''ESP Pad'', bytes = Fin 10, group = Some ''ESP Trailer''\<rparr>,
      \<lparr>text = ''Pad Length'', bytes = Fin 1, group = Some ''ESP Trailer''\<rparr>,
      \<lparr>text = ''Next Header'', bytes = Fin 1, group = Some ''ESP Trailer''\<rparr>,
      \<lparr>text = ''ESP ICV'', bytes = Fin 12, group = Some ''ESP Trailer''\<rparr>]"
  using calculatePacket_default [of False] by (simp add: defaultFormValues_def)

subsection \<open>C2\<close>



subsection \<open>C3\<close>

text \<open>
  C3. The validator should return the message of the first violated rule and the empty string
  only when no rule is violated. The code does so for every packet size but \<open>NaN\<close> (lemmas
  \<open>validateForm_number\<close> and \<open>validateForm_number_empty\<close>). For the default form with the
  packet size \<open>NaN\<close> of an emptied field, rule 1 is violated and its message is the first
  violation, yet the code returns the empty string: both comparisons of its size test are
  false.
\<close>

theorem validateForm_NaN_first_violation:
  "rule1 nanFormValues
   \<and> firstViolation nanFormValues
       = Some ''Please enter a valid packet size between 28 and 64000''
   \<and> validateForm nanFormValues = ''''"
proof -
  have r: "rule1 nanFormValues"
    by (simp add: rule_defs form_defs)
  have "ipProtocol (transport nanFormValues) = IPv4"
    by (simp add: form_defs)
  then have m: "packetSizeMessage nanFormValues
      = ''Please enter a valid packet size between 28 and 64000''"
    by (rule packetSizeMessage_IPv4)
  from r m show ?thesis
    by (simp add: validateForm_nan firstViolation_eq)
qed

subsection \<open>C4\<close>

text \<open>
  C4 as stated fails: with ESP-SHA-HMAC selected and no ESP encryption, a protection is
  configured, yet the composer returns the outer IP header alone; the inner-data helper is
  not invoked and there is no original payload segment.
\<close>

theorem innerData_invocations_counterexample:
  "espInte (transform inteOnlyFormValues) = ESP_SHA_HMAC
   \<and> calculatePacket inteOnlyFormValues
       = [\<lparr>text = ''New IPv4 Header for IPsec'', bytes = Fin 20, group = None\<rparr>]
   \<and> filter (\<lambda>d. text d = ''Original IPv4 Payload'') (calculatePacket inteOnlyFormValues) = []"
  by (simp add: form_defs steps_defs)

text \<open>
  C4, as amended. A run is the segments of steps 1 to 3, then those the AH step emits, then
  those the ESP step emits. The original payload, which only the inner-data helper emits, is
  never emitted by both the AH step and the ESP step of one run. When at least one protection
  is configured and it is not the case that an ESP integrity other than ESP-GMAC is selected
  without an ESP encryption, the run emits at least one original payload segment.
\<close>

theorem innerData_invocations:
  "calculatePacket form
     = packetDetails (afterGre form)
       @ emitted (addAuthenticationHeader form) (afterGre form)
       @ emitted (addEsp form) (addAuthenticationHeader form (afterGre form))
   \<and> \<not> ((\<exists>d \<in> set (emitted (addAuthenticationHeader form) (afterGre form)).
            text d = payloadText form)
        \<and> (\<exists>d \<in> set (emitted (addEsp form) (addAuthenticationHeader form (afterGre form))).
            text d = payloadText form))
   \<and> ((espEncr (transform form) \<noteq> Encr_None \<or> espInte (transform form) \<noteq> Inte_None
        \<or> ahInte (transform form) \<noteq> Ah_None)
       \<and> (espEncr (transform form) \<noteq> Encr_None
          \<or> espInte (transform form) \<in> {Inte_None, ESP_GMAC_128_192_256})
       \<longrightarrow> (\<exists>d \<in> set (calculatePacket form). text d = payloadText form))"
proof -
  have split: "calculatePacket form
     = packetDetails (afterGre form)
       @ emitted (addAuthenticationHeader form) (afterGre form)
       @ emitted (addEsp form) (addAuthenticationHeader form (afterGre form))"
    by (simp add: calculatePacket_segments emitted_addAuthenticationHeader emitted_addEsp
        packetLength_afterGre)
  have notboth: "\<not> ((\<exists>d \<in> set (ahSegments form). text d = payloadText form)
        \<and> (\<exists>d \<in> set (espSegments form (paddingBase form)). text d = payloadText form))"
    using payload_espSegments_imp [of _ form "paddingBase form"]
    by (auto simp: payload_ahSegments)
  have once: "\<exists>d \<in> set (calculatePacket form). text d = payloadText form"
    if a: "espEncr (transform form) \<noteq> Encr_None \<or> espInte (transform form) \<noteq> Inte_None
        \<or> ahInte (transform form) \<noteq> Ah_None"
      and b: "espEncr (transform form) \<noteq> Encr_None
          \<or> espInte (transform form) \<in> {Inte_None, ESP_GMAC_128_192_256}"
  proof (cases "espEncr (transform form) \<noteq> Encr_None
       \<or> espInte (transform form) = ESP_GMAC_128_192_256")
    case True
    from payload_espSegments [OF True, of "paddingBase form"]
    show ?thesis by (auto simp: calculatePacket_segments)
  next
    case False
    with a b have "ahInte (transform form) \<noteq> Ah_None \<and> espEncr (transform form) = Encr_None
        \<and> espInte (transform form) = Inte_None"
      by auto
    then have "\<exists>d \<in> set (ahSegments form). text d = payloadText form"
      by (simp add: payload_ahSegments)
    then show ?thesis by (auto simp: calculatePacket_segments)
  qed
  from split notboth once show ?thesis
    by (simp add: emitted_addAuthenticationHeader emitted_addEsp packetLength_afterGre)
qed

text \<open>The default form, with AES, satisfies both hypotheses, and its run has the payload segment.\<close>

theorem innerData_invocations_witness:
  "espEncr (transform defaultFormValues) = ESP_AES_128_192_256
   \<and> (\<exists>d \<in> set (calculatePacket defaultFormValues). text d = ''Original IPv4 Payload'')"
proof -
  have e: "espEncr (transform defaultFormValues) = ESP_AES_128_192_256"
    by (simp add: defaultFormValues_def)
  have a: "espEncr (transform defaultFormValues) \<noteq> Encr_None
    \<or> espInte (transform defaultFormValues) \<noteq> Inte_None
    \<or> ahInte (transform defaultFormValues) \<noteq> Ah_None"
    by (simp add: defaultFormValues_def)
  have b: "espEncr (transform defaultFormValues) \<noteq> Encr_None
      \<or> espInte (transform defaultFormValues) \<in> {Inte_None, ESP_GMAC_128_192_256}"
    by (simp add: defaultFormValues_def)
  have p: "payloadText defaultFormValues = ''Original IPv4 Payload''"
    by (simp add: payloadText_def defaultFormValues_def)
  from innerData_invocations [of defaultFormValues] a b
  have "\<exists>d \<in> set (calculatePacket defaultFormValues). text d = payloadText defaultFormValues"
    by blast
  with e p show ?thesis by simp
qed

subsection \<open>C5\<close>

text \<open>
  C5. The validator should fail a form exactly when its packet size lies outside the interval
  from the header size plus 8 to 64000, or a later rule is violated. With IPv4 and the default
  transform the code rejects the packet size 27 with the packet-size message and accepts 28.
  But it also accepts the packet size \<open>NaN\<close> of an emptied field, which lies in no interval:
  both comparisons of its size test are false.
\<close>

theorem validateForm_NaN_outside_bounds:
  "packetSize nanFormValues = NaN
   \<and> \<not> inInterval (headerSize (ipProtocol (transport nanFormValues)) + 8) 64000
         (packetSize nanFormValues)
   \<and> validateForm nanFormValues = ''''
   \<and> validateForm (defaultFormValues\<lparr>packetSize := Fin 27\<rparr>)
       = ''Please enter a valid packet size between 28 and 64000''
   \<and> validateForm (defaultFormValues\<lparr>packetSize := Fin 28\<rparr>) = ''''"
proof -
  have "validateForm (defaultFormValues\<lparr>packetSize := Fin 27\<rparr>)
       = packetSizeMessage (defaultFormValues\<lparr>packetSize := Fin 27\<rparr>)"
    by (simp add: validateForm_rules rule_defs form_defs)
  moreover have "ipProtocol (transport (defaultFormValues\<lparr>packetSize := Fin 27\<rparr>)) = IPv4"
    by (simp add: form_defs)
  ultimately have a: "validateForm (defaultFormValues\<lparr>packetSize := Fin 27\<rparr>)
       = ''Please enter a valid packet size between 28 and 64000''"
    by (simp only: packetSizeMessage_IPv4)
  have b: "validateForm (defaultFormValues\<lparr>packetSize := Fin 28\<rparr>) = ''''"
    by (simp add: validateForm_rules rule_defs form_defs)
  from a b show ?thesis
    by (simp add: validateForm_nan) (simp add: form_defs rule_defs)
qed

subsection \<open>C6\<close>

text \<open>
  C6. Every segment of an accepted form should have a byte size of at least 0, and for an
  accepted integer packet size this holds (lemma \<open>accepted_integer_bytes_nonneg\<close>). But
  the code accepts the default form with the packet size \<open>NaN\<close> of an emptied field, and
  its run has an original payload and an ESP pad of \<open>NaN\<close> bytes, for which \<open>NaN >= 0\<close>
  is false.
\<close>

theorem accepted_NaN_bytes:
  "validateForm nanFormValues = ''''
   \<and> calculatePacket nanFormValues
     = [\<lparr>text = ''New IPv4 Header for IPsec'', bytes = Fin 20, group = None\<rparr>,
        \<lparr>text = ''SPI'', bytes = Fin 4, group = Some ''ESP Header''\<rparr>,
        \<lparr>text = ''Sequence'', bytes = Fin 4, group = Some ''ESP Header''\<rparr>,
        \<lparr>text = ''ESP IV'', bytes = Fin 16, group = None\<rparr>,
        \<lparr>text = ''Original IPv4 Header'', bytes = Fin 20, group = None\<rparr>,
        \<lparr>text = ''Original IPv4 Payload'', bytes = NaN, group = None\<rparr>,
        \<lparr>text = ''ESP Pad'', bytes = NaN, group = Some ''ESP Trailer''\<rparr>,
        \<lparr>text = ''Pad Length'', bytes = Fin 1, group = Some ''ESP Trailer''\<rparr>,
        \<lparr>text = ''Next Header'', bytes = Fin 1, group = Some ''ESP Trailer''\<rparr>,
        \<lparr>text = ''ESP ICV'', bytes = Fin 12, group = Some ''ESP Trailer''\<rparr>]
   \<and> \<not> jsGe NaN (Fin 0)"
  by (simp add: validateForm_nan calculatePacket_nan jsGe_def)

subsection \<open>C7\<close>

text \<open>
  C7. The ``ESP ICV'' segments of a run are all emitted by the ESP step, which runs when an
  ESP encryption is selected or the ESP integrity is ESP-GMAC. They are, in this order: one
  of 16 bytes if and only if the encryption is GCM or the integrity is ESP-GMAC; then one that
  depends on the ESP integrity alone, of 12 bytes for MD5-HMAC and SHA-HMAC, 16 for SHA-256,
  24 for SHA-384, 32 for SHA-512, and none for None and ESP-GMAC. All are in the group
  ``ESP Trailer''.
\<close>

theorem espICV_segments:
  "filter (\<lambda>d. text d = ''ESP ICV'') (calculatePacket form)
   = (if espEncr (transform form) \<noteq> Encr_None
         \<or> espInte (transform form) = ESP_GMAC_128_192_256 then
        (if espEncr (transform form) = ESP_GCM_128_192_256
            \<or> espInte (transform form) = ESP_GMAC_128_192_256
         then [\<lparr>text = ''ESP ICV'', bytes = Fin 16, group = Some ''ESP Trailer''\<rparr>] else [])
        @ (case espInte (transform form) of
             Inte_None \<Rightarrow> []
           | ESP_MD5_HMAC \<Rightarrow> [\<lparr>text = ''ESP ICV'', bytes = Fin 12, group = Some ''ESP Trailer''\<rparr>]
           | ESP_SHA_HMAC \<Rightarrow> [\<lparr>text = ''ESP ICV'', bytes = Fin 12, group = Some ''ESP Trailer''\<rparr>]
           | ESP_SHA_256 \<Rightarrow> [\<lparr>text = ''ESP ICV'', bytes = Fin 16, group = Some ''ESP Trailer''\<rparr>]
           | ESP_SHA_384 \<Rightarrow> [\<lparr>text = ''ESP ICV'', bytes = Fin 24, group = Some ''ESP Trailer''\<rparr>]
           | ESP_SHA_512 \<Rightarrow> [\<lparr>text = ''ESP ICV'', bytes = Fin 32, group = Some ''ESP Trailer''\<rparr>]
           | ESP_GMAC_128_192_256 \<Rightarrow> [])
      else [])"
  by (cases "espInte (transform form)")
     (simp_all add: calculatePacket_segments icv_afterGre icv_ahSegments espSegments_def
        icv_encrSegments icv_gmacSegments icv_icvSegments icvSegments_def espICV_def)

text \<open>The default form has the 12-byte ICV of SHA-HMAC, GCM with ESP-GMAC the 16-byte one.\<close>

theorem espICV_segments_witness:
  "filter (\<lambda>d. text d = ''ESP ICV'') (calculatePacket defaultFormValues)
     = [\<lparr>text = ''ESP ICV'', bytes = Fin 12, group = Some ''ESP Trailer''\<rparr>]
   \<and> filter (\<lambda>d. text d = ''ESP ICV'') (calculatePacket gcmGmacAhFormValues)
     = [\<lparr>text = ''ESP ICV'', bytes = Fin 16, group = Some ''ESP Trailer''\<rparr>]"
  using espICV_segments [of defaultFormValues] espICV_segments [of gcmGmacAhFormValues]
  by (simp add: form_defs)

subsection \<open>C8\<close>

text \<open>
  C8 as stated fails: the GRE header segments of the two runs differ in their label and not
  in their byte size alone, as the two runs at packet size 100, AES, SHA-HMAC, tunnel mode,
  IPv4 and GRE show. And where the addition rounds the padding base is not 4 larger with the
  key: at the packet size \<open>2 ^ 60\<close> both bases are \<open>2 ^ 60\<close>.
\<close>

theorem greKey_label_counterexample:
  "calculatePacket (greFormValues False)
   = [\<lparr>text = ''New IPv4 Header for IPsec'', bytes = Fin 20, group = None\<rparr>,
      \<lparr>text = ''SPI'', bytes = Fin 4, group = Some ''ESP Header''\<rparr>,
      \<lparr>text = ''Sequence'', bytes = Fin 4, group = Some ''ESP Header''\<rparr>,
      \<lparr>text = ''ESP IV'', bytes = Fin 16, group = None\<rparr>,
      \<lparr>text = ''New IPv4 Header for GRE'', bytes = Fin 20, group = None\<rparr>,
      \<lparr>text = ''GRE Header'', bytes = Fin 4, group = None\<rparr>,
      \<lparr>text = ''Original IPv4 Header'', bytes = Fin 20, group = None\<rparr>,
      \<lparr>text = ''Original IPv4 Payload'', bytes = Fin 80, group = None\<rparr>,
      \<lparr>text = ''ESP Pad'', bytes = Fin 2, group = Some ''ESP Trailer''\<rparr>,
      \<lparr>text = ''Pad Length'', bytes = Fin 1, group = Some ''ESP Trailer''\<rparr>,
      \<lparr>text = ''Next Header'', bytes = Fin 1, group = Some ''ESP Trailer''\<rparr>,
      \<lparr>text = ''ESP ICV'', bytes = Fin 12, group = Some ''ESP Trailer''\<rparr>]
   \<and> calculatePacket (greFormValues True)
   = [\<lparr>text = ''New IPv4 Header for IPsec'', bytes = Fin 20, group = None\<rparr>,
      \<lparr>text = ''SPI'', bytes = Fin 4, group = Some ''ESP Header''\<rparr>,
      \<lparr>text = ''Sequence'', bytes = Fin 4, group = Some ''ESP Header''\<rparr>,
      \<lparr>text = ''ESP IV'', bytes = Fin 16, group = None\<rparr>,
      \<lparr>text = ''New IPv4 Header for GRE'', bytes = Fin 20, group = None\<rparr>,
      \<lparr>text = ''GRE Header + Tunnel Key'', bytes = Fin 8, group = None\<rparr>,
      \<lparr>text = ''Original IPv4 Header'', bytes = Fin 20, group = None\<rparr>,
      \<lparr>text = ''Original IPv4 Payload'', bytes = Fin 80, group = None\<rparr>,
      \<lparr>text = ''ESP Pad'', bytes = Fin 14, group = Some ''ESP Trailer''\<rparr>,
      \<lparr>text = ''Pad Length'', bytes = Fin 1, group = Some ''ESP Trailer''\<rparr>,
      \<lparr>text = ''Next Header'', bytes = Fin 1, group = Some ''ESP Trailer''\<rparr>,
      \<lparr>text = ''ESP ICV'', bytes = Fin 12, group = Some ''ESP Trailer''\<rparr>]
   \<and> map text (calculatePacket (greFormValues False))
       \<noteq> map text (calculatePacket (greFormValues True))
   \<and> packetLength (afterGre (bigGreFormValues False)) = Fin 1152921504606846976
   \<and> packetLength (afterGre (bigGreFormValues True)) = Fin 1152921504606846976"
proof -
  have big: "packetLength (afterGre (bigGreFormValues k)) = Fin 1152921504606846976" for k
    by (cases k)
       (simp_all add: packetLength_afterGre paddingBase_def bigGreFormValues_def
          greFormValues_def ipHeaderSize_def IPV4_HDR_SIZE_def Let_def)
  show ?thesis
    unfolding big
    by (simp add: greFormValues_def steps_defs getPadSize_124_16 getPadSize_128_16 jsSub_def)
qed

text \<open>
  C8, as amended. For a form with GRE enabled, the run with the GRE key and the run without
  it have the same number of segments, and they differ, position by position, in this only:
  where the run without the key has the segment ``GRE Header'' of 4 bytes, the run with the
  key has ``GRE Header + Tunnel Key'' of 8 bytes, and where it has an ``ESP Pad'', the run
  with the key has the pad of the same block size for its own padding base; every other
  segment is identical. Each run has one such GRE header segment for each original payload
  segment. The padding base with the key is the base without it plus 4, as the code adds it:
  4 larger when the packet size is an integer of magnitude at most \<open>2 ^ 52\<close>.
\<close>

theorem greKey_frame:
  assumes "gre (tunnelSetting form)"
  shows "packetLength (afterGre (withGreKey True form))
           = jsAdd (packetLength (afterGre (withGreKey False form))) (Fin 4)
       \<and> (safeInteger (packetSize form) \<longrightarrow>
            isFin (packetLength (afterGre (withGreKey False form)))
            \<and> packetLength (afterGre (withGreKey True form))
                = Fin (finValue (packetLength (afterGre (withGreKey False form))) + 4))
       \<and> list_all2 (greKeyVariant (packetLength (afterGre (withGreKey False form))))
           (calculatePacket (withGreKey False form)) (calculatePacket (withGreKey True form))
       \<and> length (filter (\<lambda>d. text d = ''GRE Header'') (calculatePacket (withGreKey False form)))
           = length (filter (\<lambda>d. text d = payloadText form)
                       (calculatePacket (withGreKey False form)))
       \<and> length (filter (\<lambda>d. text d = ''GRE Header + Tunnel Key'')
                     (calculatePacket (withGreKey True form)))
           = length (filter (\<lambda>d. text d = payloadText form)
                       (calculatePacket (withGreKey True form)))"
proof -
  let ?len = "paddingBase (withGreKey False form)"
  have len: "paddingBase (withGreKey True form) = jsAdd ?len (Fin 4)"
    using assms by (rule paddingBase_withGreKey)
  have head: "list_all2 (greKeyVariant ?len) (packetDetails (afterGre form))
      (packetDetails (afterGre form))"
    by (rule greKeyVariant_same [OF text_afterGre]) simp_all
  have rel: "list_all2 (greKeyVariant ?len)
          (packetDetails (afterGre (withGreKey False form))
             @ ahSegments (withGreKey False form) @ espSegments (withGreKey False form) ?len)
          (packetDetails (afterGre (withGreKey True form))
             @ ahSegments (withGreKey True form)
             @ espSegments (withGreKey True form) (jsAdd ?len (Fin 4)))"
    by (intro list_all2_appendI ahSegments_withGreKey espSegments_withGreKey)
       (simp add: afterGre_withGreKey head)
  have exact: "isFin ?len \<and> paddingBase (withGreKey True form) = Fin (finValue ?len + 4)"
    if "safeInteger (packetSize form)"
  proof -
    from that obtain m where m: "packetSize form = Fin (of_int m)" "\<bar>m\<bar> \<le> 2 ^ 52"
      by (rule safeIntegerE)
    from ipHeaderSize_cases [of form]
    obtain h where h: "ipHeaderSize form = Fin (of_int h)" "h = 20 \<or> h = 40"
      by auto
    have a: "packetSize (withGreKey k form) = Fin (of_int m)"
      "ipHeaderSize (withGreKey k form) = Fin (of_int h)" for k
      using m(1) h(1) by simp_all
    show ?thesis
      using assms
      by (simp add: paddingBase_exact [OF a(1) m(2) a(2) h(2)] isFin_def finValue_def)
  qed
  from len rel exact greHeader_count [OF assms] show ?thesis
    by (simp add: calculatePacket_segments packetLength_afterGre)
qed

text \<open>The same two runs are related, with the padding bases 124 and 128.\<close>

theorem greKey_frame_witness:
  "gre (tunnelSetting (greFormValues False))
   \<and> safeInteger (packetSize (greFormValues False))
   \<and> packetLength (afterGre (withGreKey False (greFormValues False))) = Fin 124
   \<and> packetLength (afterGre (withGreKey True (greFormValues False))) = Fin 128
   \<and> list_all2 (greKeyVariant (Fin 124))
       (calculatePacket (withGreKey False (greFormValues False)))
       (calculatePacket (withGreKey True (greFormValues False)))
   \<and> length (filter (\<lambda>d. text d = ''GRE Header + Tunnel Key'')
               (calculatePacket (withGreKey True (greFormValues False)))) = 1"
proof -
  have g: "gre (tunnelSetting (greFormValues False))"
    by (simp add: greFormValues_def)
  have s: "safeInteger (packetSize (greFormValues False))"
    by (simp add: greFormValues_def safeInteger_def)
  have l: "packetLength (afterGre (withGreKey False (greFormValues False))) = Fin 124"
    by (simp add: packetLength_afterGre paddingBase_def greFormValues_def ipHeaderSize_def
        IPV4_HDR_SIZE_def)
  have p: "length (filter (\<lambda>d. text d = payloadText (greFormValues False))
             (calculatePacket (withGreKey True (greFormValues False)))) = 1"
    using filter_calculatePacket [OF payloadText_not_fixed, of "greFormValues False"
        "withGreKey True (greFormValues False)"]
      payload_innerData [of "withGreKey True (greFormValues False)"]
    by (simp add: payloadText_def) (simp add: greFormValues_def)
  from greKey_frame [OF g] g s l p show ?thesis
    by (simp add: finValue_def)
qed

subsection \<open>C9\<close>

text \<open>
  C9. The composer reads its argument only, and starts every run from the state
  \<open>initial\<close>: two forms that agree on every field give the same sequence of segments, of
  the same length and with the same labels, groups and byte sizes in the same order.
\<close>

theorem calculatePacket_deterministic:
  assumes "packetSize form1 = packetSize form2"
    and "ahInte (transform form1) = ahInte (transform form2)"
    and "espEncr (transform form1) = espEncr (transform form2)"
    and "espInte (transform form1) = espInte (transform form2)"
    and "tunnelMode (transform form1) = tunnelMode (transform form2)"
    and "ipProtocol (transport form1) = ipProtocol (transport form2)"
    and "natTraver (transport form1) = natTraver (transport form2)"
    and "gre (tunnelSetting form1) = gre (tunnelSetting form2)"
    and "greKey (tunnelSetting form1) = greKey (tunnelSetting form2)"
  shows "calculatePacket form1 = calculatePacket form2
       \<and> length (calculatePacket form1) = length (calculatePacket form2)
       \<and> map text (calculatePacket form1) = map text (calculatePacket form2)
       \<and> map group (calculatePacket form1) = map group (calculatePacket form2)
       \<and> map bytes (calculatePacket form1) = map bytes (calculatePacket form2)"
proof -
  have "transform form1 = transform form2"
    using assms by (intro TransformSettings.equality) simp_all
  moreover have "transport form1 = transport form2"
    using assms by (intro TransportSettings.equality) simp_all
  moreover have "tunnelSetting form1 = tunnelSetting form2"
    using assms by (intro TunnelSettings.equality) simp_all
  ultimately have "form1 = form2"
    using assms(1) by (intro IFormState.equality) simp_all
  then show ?thesis by simp
qed

text \<open>Two forms built in different ways with the same field values.\<close>

theorem calculatePacket_deterministic_witness:
  "calculatePacket (greFormValues True) = calculatePacket (withGreKey True (greFormValues False))"
  using calculatePacket_deterministic
    [of "greFormValues True" "withGreKey True (greFormValues False)"]
  by (simp add: greFormValues_def)

subsection \<open>C10\<close>

text \<open>
  C10 as stated fails where the arithmetic rounds. At the packet size \<open>2 ^ 60\<close>, in tunnel
  mode without GRE, the run has one ``ESP Pad''; the padding base is \<open>2 ^ 60\<close>, and the
  inner-data helper emits 20 bytes of header and \<open>2 ^ 60\<close> bytes of payload, since
  \<open>2 ^ 60 - 20\<close> rounds to \<open>2 ^ 60\<close>: the base is 20 less than the sum.
\<close>

theorem paddingBase_is_innerData_sum_counterexample:
  "length (filter (\<lambda>d. text d = ''ESP Pad'') (calculatePacket bigFormValues)) = 1
   \<and> packetLength (afterGre bigFormValues) = Fin 1152921504606846976
   \<and> map bytes (emitted (setInnerdata bigFormValues) initial)
       = [Fin 20, Fin 1152921504606846976]
   \<and> finValue (packetLength (afterGre bigFormValues))
       \<noteq> sum_list (map finValue (map bytes (emitted (setInnerdata bigFormValues) initial)))"
proof -
  have one: "length (filter (\<lambda>d. text d = ''ESP Pad'') (calculatePacket bigFormValues)) = 1"
    by (simp add: pad_calculatePacket form_defs)
  have len: "packetLength (afterGre bigFormValues) = Fin 1152921504606846976"
    by (simp add: packetLength_afterGre paddingBase_def form_defs)
  have inner: "map bytes (emitted (setInnerdata bigFormValues) initial)
       = [Fin 20, Fin 1152921504606846976]"
    by (simp add: emitted_setInnerdata innerData_eq form_defs ipHeaderSize_def
        IPV4_HDR_SIZE_def jsSub_def)
  show ?thesis
    unfolding inner len using one by (simp add: finValue_def)
qed

text \<open>
  C10, as amended. When the packet size is an integer of magnitude at most \<open>2 ^ 52\<close> and a
  run emits exactly one ``ESP Pad'' segment, the sizes of the segments that the inner-data
  helper emits (from whatever state it is called) are finite, the running \<open>packetLength\<close>
  after steps 1 to 3 equals their sum, and the pad is computed from that sum, for one of the
  block sizes 4, 8 and 16. The form is otherwise arbitrary, so this covers the four
  combinations of tunnel mode and GRE.
\<close>

theorem paddingBase_is_innerData_sum:
  assumes "safeInteger (packetSize form)"
    and "length (filter (\<lambda>d. text d = ''ESP Pad'') (calculatePacket form)) = 1"
  shows "list_all isFin (map bytes (emitted (setInnerdata form) s))
       \<and> packetLength (afterGre form)
           = Fin (sum_list (map finValue (map bytes (emitted (setInnerdata form) s))))
       \<and> (\<exists>blockSize \<in> set [Fin 4, Fin 8, Fin 16].
            filter (\<lambda>d. text d = ''ESP Pad'') (calculatePacket form)
            = [espPad (Fin (sum_list (map finValue
                 (map bytes (emitted (setInnerdata form) s))))) blockSize])"
proof -
  from assms(1) obtain m where m: "packetSize form = Fin (of_int m)" "\<bar>m\<bar> \<le> 2 ^ 52"
    by (rule safeIntegerE)
  from ipHeaderSize_cases [of form]
  obtain h where h: "ipHeaderSize form = Fin (of_int h)" "h = 20 \<or> h = 40"
    by auto
  have base: "paddingBase form
      = Fin (sum_list (map finValue (map bytes (innerData form))))"
    by (simp only: paddingBase_exact [OF m h] innerData_exact(2) [OF m h])
  have pad: "\<exists>blockSize \<in> set [Fin 4, Fin 8, Fin 16].
      filter (\<lambda>d. text d = ''ESP Pad'') (calculatePacket form)
      = [espPad (paddingBase form) blockSize]"
    using assms(2)
    by (cases "espEncr (transform form)")
       (simp_all add: pad_calculatePacket split: if_splits)
  from innerData_exact(1) [OF m h] base pad show ?thesis
    by (simp add: emitted_setInnerdata packetLength_afterGre)
qed

text \<open>Tunnel mode with GRE and its key: one pad, and both numbers are 128.\<close>

theorem paddingBase_is_innerData_sum_witness:
  "safeInteger (packetSize (greFormValues True))
   \<and> length (filter (\<lambda>d. text d = ''ESP Pad'') (calculatePacket (greFormValues True))) = 1
   \<and> packetLength (afterGre (greFormValues True)) = Fin 128
   \<and> sum_list (map finValue (map bytes (emitted (setInnerdata (greFormValues True)) initial)))
       = 128"
proof -
  have s: "safeInteger (packetSize (greFormValues True))"
    by (simp add: greFormValues_def safeInteger_def)
  have one: "length (filter (\<lambda>d. text d = ''ESP Pad'') (calculatePacket (greFormValues True))) = 1"
    by (simp add: pad_calculatePacket greFormValues_def)
  have len: "packetLength (afterGre (greFormValues True)) = Fin 128"
    by (simp add: packetLength_afterGre paddingBase_def greFormValues_def ipHeaderSize_def
        IPV4_HDR_SIZE_def)
  from paddingBase_is_innerData_sum [OF s one, of initial] s one len show ?thesis by simp
qed

end
